theory Spec2Isabelle
  imports Complex_Main "HOL-Library.FSet" "HOL-Library.Word"
begin

section \<open>The relay server (server.js)\<close>

subsection \<open>Data\<close>

text \<open>
  A socket id, a session id and a user id are JavaScript strings. A \<open>Date\<close> is its
  time value, the integer number of milliseconds since the epoch; the difference of two
  dates is the difference of their time values.
\<close>

type_synonym socket_id = string
type_synonym session_id = string

text \<open>
  The value stored in the \<open>sessions\<close> map:
  \<^verbatim>\<open>{ users: new Set(), createdAt: now, lastActivity: now, maxUsers: 2 }\<close>.
  \<open>users\<close> is a JavaScript \<open>Set\<close> of socket ids, a finite set.
\<close>

record session =
  users :: "socket_id fset"
  createdAt :: int
  lastActivity :: int
  maxUsers :: nat

text \<open>
  The variables \<open>currentSessionId\<close> and \<open>userId\<close> that the callback of
  \<open>io.on('connection')\<close> closes over, one pair per socket; \<open>None\<close> is \<open>null\<close>.
\<close>

record connection =
  currentSessionId :: "session_id option"
  userId :: "string option"

text \<open>
  The state of the process: the global \<open>sessions\<close> map, the rooms of socket.io
  (\<open>socket.join(room)\<close> adds the socket to a room, \<open>socket.to(room)\<close> addresses every
  socket of the room but the sender), and the closure variables of every socket.
\<close>

record server =
  sessions :: "session_id \<rightharpoonup> session"
  rooms :: "session_id \<Rightarrow> socket_id fset"
  conns :: "socket_id \<Rightarrow> connection"

definition SESSION_EXPIRY_HOURS :: real where
  "SESSION_EXPIRY_HOURS = 24"

text \<open>The expiry horizon in milliseconds, the unit of the time values.\<close>

definition expiryHorizon :: int where
  "expiryHorizon = 24 * 60 * 60 * 1000"

subsection \<open>Session functions\<close>

text \<open>
  \<^verbatim>\<open>/^[A-Za-z0-9_-]{43}$/.test(sessionId)\<close>: exactly 43 characters of the base64url
  alphabet (without the \<open>m\<close> flag, \<open>$\<close> matches at the end of the input only).
\<close>

definition base64urlChar :: "char \<Rightarrow> bool" where
  "base64urlChar c \<longleftrightarrow>
     (let n = (of_char c :: nat)
      in (65 \<le> n \<and> n \<le> 90) \<or> (97 \<le> n \<and> n \<le> 122) \<or> (48 \<le> n \<and> n \<le> 57) \<or>
         c = CHR ''_'' \<or> c = CHR ''-'')"

definition isValidSessionId :: "session_id \<Rightarrow> bool" where
  "isValidSessionId sessionId \<longleftrightarrow> length sessionId = 43 \<and> list_all base64urlChar sessionId"

text \<open>
  \<^verbatim>\<open>(new Date() - session.createdAt) / (1000 * 60 * 60)\<close>, with \<open>now\<close> the time value
  of \<open>new Date()\<close>. The source divides in floating point; the quotient is taken
  exactly here, which gives the comparison with \<open>SESSION_EXPIRY_HOURS\<close> the same
  outcome: the division is monotone and 24 hours are a whole number of milliseconds.
\<close>

definition hoursSinceCreation :: "int \<Rightarrow> session \<Rightarrow> real" where
  "hoursSinceCreation now ses = real_of_int (now - createdAt ses) / (1000 * 60 * 60)"

text \<open>
  \<open>createSession\<close>; \<open>sessionId\<close> is the value that \<open>generateSessionId()\<close> returned
  (32 random bytes in base64url). The timer it starts is \<open>expiryTimer\<close> below.
\<close>

definition createSession :: "session_id \<Rightarrow> int \<Rightarrow> server \<Rightarrow> server" where
  "createSession sessionId now s =
     s\<lparr>sessions := (sessions s)(sessionId \<mapsto>
          \<lparr>users = {||}, createdAt = now, lastActivity = now, maxUsers = 2\<rparr>)\<rparr>"

text \<open>The callback of the \<open>setTimeout\<close> of \<open>createSession\<close>, run at time \<open>now\<close>.\<close>

definition expiryTimer :: "session_id \<Rightarrow> int \<Rightarrow> server \<Rightarrow> server" where
  "expiryTimer sessionId now s =
     (case sessions s sessionId of
        None \<Rightarrow> s
      | Some ses \<Rightarrow>
          if hoursSinceCreation now ses \<ge> SESSION_EXPIRY_HOURS
          then s\<lparr>sessions := (sessions s)(sessionId := None)\<rparr>
          else s)"

text \<open>\<open>canJoinSession\<close> returns its boolean and the state, which it may have changed.\<close>

definition canJoinSession :: "session_id \<Rightarrow> int \<Rightarrow> server \<Rightarrow> bool \<times> server" where
  "canJoinSession sessionId now s =
     (case sessions s sessionId of
        None \<Rightarrow> (False, s)
      | Some ses \<Rightarrow>
          if hoursSinceCreation now ses \<ge> SESSION_EXPIRY_HOURS
          then (False, s\<lparr>sessions := (sessions s)(sessionId := None)\<rparr>)
          else if fcard (users ses) \<ge> maxUsers ses then (False, s)
          else (True, s))"

definition isSessionValidForMessaging :: "session_id \<Rightarrow> int \<Rightarrow> server \<Rightarrow> bool \<times> server" where
  "isSessionValidForMessaging sessionId now s =
     (case sessions s sessionId of
        None \<Rightarrow> (False, s)
      | Some ses \<Rightarrow>
          if hoursSinceCreation now ses \<ge> SESSION_EXPIRY_HOURS
          then (False, s\<lparr>sessions := (sessions s)(sessionId := None)\<rparr>)
          else (True, s))"

definition updateSessionActivity :: "session_id \<Rightarrow> int \<Rightarrow> server \<Rightarrow> server" where
  "updateSessionActivity sessionId now s =
     (case sessions s sessionId of
        None \<Rightarrow> s
      | Some ses \<Rightarrow> s\<lparr>sessions := (sessions s)(sessionId \<mapsto> ses\<lparr>lastActivity := now\<rparr>)\<rparr>)"

subsection \<open>Messages\<close>

text \<open>
  What the server emits: the event with its payload, and the reply handed to the
  acknowledgement callback of \<open>create-session\<close> and \<open>join-session\<close>. The payload
  fields of the clients' events are strings. The \<open>timestamp\<close> of a relayed message is
  \<open>new Date().toISOString()\<close>, kept here as the time value it renders.
\<close>

datatype message =
    UserJoined "string option"
  | KeyExchange string
  | EncryptedMessage string string string int
  | UserTyping "string option" bool
  | UserLeft "string option"
  | Error string

type_synonym emission = "socket_id fset \<times> message"

datatype reply =
    Created session_id string string
  | JoinError string
  | Joined string bool "string option"

text \<open>
  The link: \<open>BASE_URL\<close> is \<open>process.env.BASE_URL || null\<close> and \<open>PORT\<close> is
  \<open>process.env.PORT || 3000\<close>; the request is \<open>socket.request\<close>. A missing header is
  \<open>None\<close>; \<open>a || b\<close> takes \<open>b\<close> when \<open>a\<close> is missing or the empty string.
\<close>

record config =
  BASE_URL :: "string option"
  PORT :: string

record request =
  xForwardedProto :: "string option"
  secure :: bool
  host :: "string option"

definition truthy :: "string option \<Rightarrow> string option" where
  "truthy v = (case v of None \<Rightarrow> None | Some x \<Rightarrow> if x = [] then None else Some x)"

definition shareLink :: "config \<Rightarrow> request \<Rightarrow> session_id \<Rightarrow> string" where
  "shareLink cfg req sessionId =
     (case truthy (BASE_URL cfg) of
        Some b \<Rightarrow> b @ ''/chat/'' @ sessionId
      | None \<Rightarrow>
          (let protocol = (case truthy (xForwardedProto req) of
                             Some p \<Rightarrow> p
                           | None \<Rightarrow> if secure req then ''https'' else ''http'');
               h = (case truthy (host req) of
                      Some x \<Rightarrow> x
                    | None \<Rightarrow> ''localhost:'' @ PORT cfg)
           in protocol @ ''://'' @ h @ ''/chat/'' @ sessionId))"

subsection \<open>Socket handlers\<close>

text \<open>
  One run of a handler reads the clock up to three times (\<open>new Date()\<close> in the
  validity check, in \<open>updateSessionActivity\<close> and for the timestamp); the readings
  of one run are taken to be the same value \<open>now\<close>. \<open>userId\<close> is
  \<open>crypto.randomBytes(8).toString('hex')\<close>, an input here like the session id.
\<close>

text \<open>\<open>io.on('connection')\<close>: both closure variables start as \<open>null\<close>.\<close>

definition connect :: "socket_id \<Rightarrow> server \<Rightarrow> server" where
  "connect sock s = s\<lparr>conns := (conns s)(sock := \<lparr>currentSessionId = None, userId = None\<rparr>)\<rparr>"

text \<open>
  \<^verbatim>\<open>sessions.get(sessionId).users.add(socket.id)\<close>. Both callers have just seen the
  session in the map (lemmas \<open>createSession_present\<close> and \<open>canJoinSession_present\<close>),
  so the lookup finds it.
\<close>

definition addUser :: "session_id \<Rightarrow> socket_id \<Rightarrow> server \<Rightarrow> server" where
  "addUser sessionId sock s =
     (case sessions s sessionId of
        None \<Rightarrow> s
      | Some ses \<Rightarrow> s\<lparr>sessions := (sessions s)(sessionId \<mapsto> ses\<lparr>users := finsert sock (users ses)\<rparr>)\<rparr>)"

definition joinRoom :: "session_id \<Rightarrow> socket_id \<Rightarrow> server \<Rightarrow> server" where
  "joinRoom room sock s = s\<lparr>rooms := (rooms s)(room := finsert sock (rooms s room))\<rparr>"

text \<open>\<open>socket.to(room)\<close>: the sockets of the room other than the sender.\<close>

definition others :: "server \<Rightarrow> session_id \<Rightarrow> socket_id \<Rightarrow> socket_id fset" where
  "others s room sock = rooms s room |-| {|sock|}"

definition setConn :: "socket_id \<Rightarrow> session_id \<Rightarrow> string \<Rightarrow> server \<Rightarrow> server" where
  "setConn sock sessionId uid s =
     s\<lparr>conns := (conns s)(sock := \<lparr>currentSessionId = Some sessionId, userId = Some uid\<rparr>)\<rparr>"

definition create_session ::
  "config \<Rightarrow> request \<Rightarrow> socket_id \<Rightarrow> session_id \<Rightarrow> string \<Rightarrow> int \<Rightarrow> server \<Rightarrow> server \<times> reply" where
  "create_session cfg req sock sessionId uid now s =
     (let s1 = createSession sessionId now s;
          s2 = setConn sock sessionId uid s1;
          s3 = addUser sessionId sock s2;
          s4 = joinRoom sessionId sock s3;
          s5 = updateSessionActivity sessionId now s4
      in (s5, Created sessionId uid (shareLink cfg req sessionId)))"

definition join_session ::
  "config \<Rightarrow> request \<Rightarrow> socket_id \<Rightarrow> session_id \<Rightarrow> string \<Rightarrow> int \<Rightarrow> server
     \<Rightarrow> server \<times> emission list \<times> reply" where
  "join_session cfg req sock sessionId uid now s =
     (if \<not> isValidSessionId sessionId then (s, [], JoinError ''Invalid session ID'')
      else
        (case canJoinSession sessionId now s of
           (False, s1) \<Rightarrow> (s1, [], JoinError ''Session not available or expired'')
         | (True, s1) \<Rightarrow>
             (let s2 = setConn sock sessionId uid s1;
                  s3 = addUser sessionId sock s2;
                  s4 = joinRoom sessionId sock s3;
                  s5 = updateSessionActivity sessionId now s4;
                  isInitiator = (case sessions s5 sessionId of
                                   None \<Rightarrow> False
                                 | Some ses \<Rightarrow> fcard (users ses) = 1);
                  link = (if isInitiator then Some (shareLink cfg req sessionId) else None)
              in (s5, [(others s5 sessionId sock, UserJoined (Some uid))],
                  Joined uid isInitiator link))))"

text \<open>
  \<^verbatim>\<open>if (!currentSessionId) return;\<close>: \<open>null\<close> and the empty string are falsy.
\<close>

definition key_exchange :: "socket_id \<Rightarrow> string \<Rightarrow> server \<Rightarrow> emission list" where
  "key_exchange sock publicKey s =
     (case truthy (currentSessionId (conns s sock)) of
        None \<Rightarrow> []
      | Some sid \<Rightarrow> [(others s sid sock, KeyExchange publicKey)])"

definition encrypted_message ::
  "socket_id \<Rightarrow> string \<Rightarrow> string \<Rightarrow> string \<Rightarrow> int \<Rightarrow> server \<Rightarrow> server \<times> emission list" where
  "encrypted_message sock encryptedData iv tag now s =
     (case truthy (currentSessionId (conns s sock)) of
        None \<Rightarrow> (s, [({|sock|}, Error ''Session expired or invalid'')])
      | Some sid \<Rightarrow>
          (case isSessionValidForMessaging sid now s of
             (False, s1) \<Rightarrow> (s1, [({|sock|}, Error ''Session expired or invalid'')])
           | (True, s1) \<Rightarrow>
               (case sessions s1 sid of
                  None \<Rightarrow> (s1, [({|sock|}, Error ''Not a member of this session'')])
                | Some ses \<Rightarrow>
                    if sock |\<notin>| users ses
                    then (s1, [({|sock|}, Error ''Not a member of this session'')])
                    else (updateSessionActivity sid now s1,
                          [(others s1 sid sock, EncryptedMessage encryptedData iv tag now)]))))"

definition typing :: "socket_id \<Rightarrow> bool \<Rightarrow> server \<Rightarrow> emission list" where
  "typing sock isTyping s =
     (case truthy (currentSessionId (conns s sock)) of
        None \<Rightarrow> []
      | Some sid \<Rightarrow> [(others s sid sock, UserTyping (userId (conns s sock)) isTyping)])"

text \<open>
  \<open>disconnect\<close>. socket.io takes the socket out of all its rooms before it runs the
  handler, and the closure of the socket is gone afterwards.
\<close>

definition leaveAll :: "socket_id \<Rightarrow> server \<Rightarrow> server" where
  "leaveAll sock s = s\<lparr>rooms := (\<lambda>room. rooms s room |-| {|sock|})\<rparr>"

definition disconnect :: "socket_id \<Rightarrow> server \<Rightarrow> server \<times> emission list" where
  "disconnect sock s =
     (let s0 = connect sock (leaveAll sock s)
      in case truthy (currentSessionId (conns s sock)) of
           None \<Rightarrow> (s0, [])
         | Some sid \<Rightarrow>
             (case sessions s0 sid of
                None \<Rightarrow> (s0, [])
              | Some ses \<Rightarrow>
                  (let ses' = ses\<lparr>users := users ses |-| {|sock|}\<rparr>;
                       out = [(others s0 sid sock, UserLeft (userId (conns s sock)))]
                   in if fcard (users ses') = 0
                      then (s0\<lparr>sessions := (sessions s0)(sid := None)\<rparr>, out)
                      else (s0\<lparr>sessions := (sessions s0)(sid \<mapsto> ses')\<rparr>, out))))"

text \<open>The hourly \<open>setInterval\<close>: every session past the horizon is deleted.\<close>

definition sweep :: "int \<Rightarrow> server \<Rightarrow> server" where
  "sweep now s =
     s\<lparr>sessions := (\<lambda>sid. case sessions s sid of
                             None \<Rightarrow> None
                           | Some ses \<Rightarrow>
                               if hoursSinceCreation now ses \<ge> SESSION_EXPIRY_HOURS
                               then None else Some ses)\<rparr>"

subsection \<open>Events\<close>

text \<open>
  Everything that runs code of the server, with the values the run draws from outside
  (random ids, the request, the payload). \<open>GET /chat/new\<close> calls \<open>createSession\<close> and
  redirects; the other routes leave the state alone.
\<close>

datatype event =
    Connect socket_id
  | GetChatNew session_id
  | CreateSession request socket_id session_id string
  | JoinSession request socket_id session_id string
  | KeyExchangeEv socket_id string
  | EncryptedMessageEv socket_id string string string
  | TypingEv socket_id bool
  | Disconnect socket_id
  | ExpiryTimer session_id
  | Sweep

fun step :: "config \<Rightarrow> int \<Rightarrow> event \<Rightarrow> server \<Rightarrow> server" where
  "step cfg now (Connect sock) s = connect sock s"
| "step cfg now (GetChatNew sessionId) s = createSession sessionId now s"
| "step cfg now (CreateSession req sock sessionId uid) s =
     fst (create_session cfg req sock sessionId uid now s)"
| "step cfg now (JoinSession req sock sessionId uid) s =
     fst (join_session cfg req sock sessionId uid now s)"
| "step cfg now (KeyExchangeEv sock publicKey) s = s"
| "step cfg now (EncryptedMessageEv sock encryptedData iv tag) s =
     fst (encrypted_message sock encryptedData iv tag now s)"
| "step cfg now (TypingEv sock isTyping) s = s"
| "step cfg now (Disconnect sock) s = fst (disconnect sock s)"
| "step cfg now (ExpiryTimer sessionId) s = expiryTimer sessionId now s"
| "step cfg now Sweep s = sweep now s"

text \<open>A run: the events in order, each with its clock reading.\<close>

fun run :: "config \<Rightarrow> (int \<times> event) list \<Rightarrow> server \<Rightarrow> server" where
  "run cfg [] s = s"
| "run cfg ((now, ev) # evs) s = run cfg evs (step cfg now ev s)"

text \<open>The state of a freshly started process.\<close>

definition initial :: server where
  "initial = \<lparr>sessions = Map.empty, rooms = (\<lambda>_. {||}),
              conns = (\<lambda>_. \<lparr>currentSessionId = None, userId = None\<rparr>)\<rparr>"



text \<open>A sequence of \<open>updateSessionActivity\<close> calls, each with its session id and its time.\<close>

definition touches :: "(session_id \<times> int) list \<Rightarrow> server \<Rightarrow> server" where
  "touches ts s = fold (\<lambda>(i, t). updateSessionActivity i t) ts s"

subsection \<open>A concrete run\<close>

definition sid0 :: session_id where
  "sid0 = ''ABCDEFGHIJKLMNOPQRSTUVWXYZabcdefghijklmno_-''"

definition cfg0 :: config where
  "cfg0 = \<lparr>BASE_URL = None, PORT = ''3000''\<rparr>"

definition req0 :: request where
  "req0 = \<lparr>xForwardedProto = None, secure = False, host = Some ''localhost:3000''\<rparr>"

text \<open>
  Socket \<open>A\<close> creates a session at time 0 and socket \<open>B\<close> joins it a second later.
\<close>

definition twoParty :: server where
  "twoParty = run cfg0 [(0, Connect ''A''), (0, CreateSession req0 ''A'' sid0 ''ua''),
                        (1000, Connect ''B''), (1000, JoinSession req0 ''B'' sid0 ''ub'')] initial"

text \<open>A socket whose closure names the session although it is not among its users.\<close>

definition stranger :: server where
  "stranger = twoParty\<lparr>conns := (conns twoParty)
                 (''Z'' := \<lparr>currentSessionId = Some sid0, userId = Some ''uz''\<rparr>)\<rparr>"

section \<open>The encryption module (class E2EE)\<close>

text \<open>
  The class works on three kinds of data: JavaScript strings (sequences of 16-bit code
  units), byte buffers (\<open>ArrayBuffer\<close>, \<open>Uint8Array\<close>) and the keys of the Web Crypto
  API. The text and base64 conversions it calls (\<open>TextEncoder\<close>, \<open>TextDecoder\<close>,
  \<open>btoa\<close>, \<open>atob\<close>) are functions of the platform with a fixed meaning, and are
  written out below, on the numbers of the code units and bytes. The cryptographic
  primitives of \<open>crypto.subtle\<close> are parameters of the model.
\<close>

type_synonym byte = "8 word"

type_synonym jsstring = "16 word list"

text \<open>
  A string literal of ASCII characters as a JavaScript string.
\<close>

definition js :: "string \<Rightarrow> jsstring" where
  "js s = map (\<lambda>c. of_nat (of_char c)) s"

subsection \<open>btoa and atob\<close>

text \<open>
  The base64 alphabet: \<open>A\<close> to \<open>Z\<close>, \<open>a\<close> to \<open>z\<close>, \<open>0\<close> to \<open>9\<close>, \<open>+\<close> and
  \<open>/\<close>; \<open>b64char\<close> gives the character code of a 6-bit value and \<open>b64val\<close> the 6-bit
  value of a character code.
\<close>

definition b64char :: "nat \<Rightarrow> nat" where
  "b64char i =
     (if i < 26 then 65 + i
      else if i < 52 then 97 + (i - 26)
      else if i < 62 then 48 + (i - 52)
      else if i = 62 then 43
      else 47)"

definition b64val :: "nat \<Rightarrow> nat option" where
  "b64val c =
     (if 65 \<le> c \<and> c \<le> 90 then Some (c - 65)
      else if 97 \<le> c \<and> c \<le> 122 then Some (c - 97 + 26)
      else if 48 \<le> c \<and> c \<le> 57 then Some (c - 48 + 52)
      else if c = 43 then Some 62
      else if c = 47 then Some 63
      else None)"

text \<open>
  \<open>btoa\<close>: three bytes make four characters; one or two bytes left over make two or
  three characters and padding \<open>=\<close> (code 61). It throws on a code unit above 255.
\<close>

fun btoa_groups :: "nat list \<Rightarrow> nat list" where
  "btoa_groups (a # b # c # rest) =
     b64char (a div 4) # b64char ((a mod 4) * 16 + b div 16) #
     b64char ((b mod 16) * 4 + c div 64) # b64char (c mod 64) # btoa_groups rest"
| "btoa_groups [a, b] =
     [b64char (a div 4), b64char ((a mod 4) * 16 + b div 16), b64char ((b mod 16) * 4), 61]"
| "btoa_groups [a] = [b64char (a div 4), b64char ((a mod 4) * 16), 61, 61]"
| "btoa_groups [] = []"

definition btoa :: "jsstring \<Rightarrow> jsstring option" where
  "btoa s =
     (if list_all (\<lambda>u. unat u \<le> 255) s
      then Some (map of_nat (btoa_groups (map unat s)))
      else None)"

text \<open>
  \<open>atob\<close> (forgiving base64 decoding): ASCII whitespace is removed; if the length is
  then a multiple of 4, one or two final \<open>=\<close> are removed; a length of 1 modulo 4 or a
  character outside the alphabet is an error (\<open>None\<close>); four characters make three
  bytes, and two or three characters left over make one or two bytes.
\<close>

definition asciiWhitespace :: "nat \<Rightarrow> bool" where
  "asciiWhitespace c \<longleftrightarrow> c = 9 \<or> c = 10 \<or> c = 12 \<or> c = 13 \<or> c = 32"

definition stripPadding :: "nat list \<Rightarrow> nat list" where
  "stripPadding d =
     (if length d mod 4 = 0
      then (case rev d of
              x # y # r \<Rightarrow> if x = 61 \<and> y = 61 then rev r
                           else if x = 61 then rev (y # r) else d
            | _ \<Rightarrow> d)
      else d)"

fun atob_groups :: "nat list \<Rightarrow> nat list" where
  "atob_groups (p # q # r # s # rest) =
     (p * 4 + q div 16) # ((q mod 16) * 16 + r div 4) # ((r mod 4) * 64 + s) # atob_groups rest"
| "atob_groups [p, q, r] = [p * 4 + q div 16, (q mod 16) * 16 + r div 4]"
| "atob_groups [p, q] = [p * 4 + q div 16]"
| "atob_groups _ = []"

definition atob :: "jsstring \<Rightarrow> jsstring option" where
  "atob s =
     (let d = stripPadding (filter (\<lambda>c. \<not> asciiWhitespace c) (map unat s))
      in if length d mod 4 = 1 then None
         else (case those (map b64val d) of
                 None \<Rightarrow> None
               | Some vs \<Rightarrow> Some (map of_nat (atob_groups vs))))"

text \<open>
  \<open>arrayBufferToBase64\<close> builds the binary string with \<open>String.fromCharCode\<close> of every
  byte and calls \<open>btoa\<close>; \<open>base64ToArrayBuffer\<close> calls \<open>atob\<close> and stores
  \<open>charCodeAt\<close> of every character into a \<open>Uint8Array\<close>.
\<close>

definition arrayBufferToBase64 :: "byte list \<Rightarrow> jsstring option" where
  "arrayBufferToBase64 buffer = btoa (map ucast buffer)"

definition base64ToArrayBuffer :: "jsstring \<Rightarrow> byte list option" where
  "base64ToArrayBuffer base64 = map_option (map ucast) (atob base64)"

subsection \<open>TextEncoder and TextDecoder\<close>

text \<open>
  \<open>new TextEncoder().encode(str)\<close> first reads the string as scalar values: a high
  surrogate followed by a low surrogate is one supplementary code point, and any other
  surrogate is replaced by U+FFFD. Then every scalar value is written in UTF-8.
\<close>

definition highSurrogate :: "nat \<Rightarrow> bool" where
  "highSurrogate u \<longleftrightarrow> 0xD800 \<le> u \<and> u \<le> 0xDBFF"

definition lowSurrogate :: "nat \<Rightarrow> bool" where
  "lowSurrogate u \<longleftrightarrow> 0xDC00 \<le> u \<and> u \<le> 0xDFFF"

fun toScalars :: "nat list \<Rightarrow> nat list" where
  "toScalars [] = []"
| "toScalars [u] = (if highSurrogate u \<or> lowSurrogate u then [0xFFFD] else [u])"
| "toScalars (u # v # rest) =
     (if highSurrogate u
      then (if lowSurrogate v
            then (0x10000 + (u - 0xD800) * 0x400 + (v - 0xDC00)) # toScalars rest
            else 0xFFFD # toScalars (v # rest))
      else if lowSurrogate u then 0xFFFD # toScalars (v # rest)
      else u # toScalars (v # rest))"

definition utf8_bytes :: "nat \<Rightarrow> nat list" where
  "utf8_bytes c =
     (if c < 0x80 then [c]
      else if c < 0x800 then [0xC0 + c div 64, 0x80 + c mod 64]
      else if c < 0x10000 then [0xE0 + c div 4096, 0x80 + (c div 64) mod 64, 0x80 + c mod 64]
      else [0xF0 + c div 262144, 0x80 + (c div 4096) mod 64, 0x80 + (c div 64) mod 64,
            0x80 + c mod 64])"

definition stringToArrayBuffer :: "jsstring \<Rightarrow> byte list" where
  "stringToArrayBuffer str = map of_nat (concat (map utf8_bytes (toScalars (map unat str))))"

text \<open>
  \<open>new TextDecoder().decode(buffer)\<close> runs the UTF-8 decoder of the Encoding Standard
  in replacement mode. Its state is the code point under construction, the bytes seen
  and needed, and the bounds of the next byte. A lead byte opens a sequence; an
  expected continuation byte extends it; a byte out of bounds yields U+FFFD and is then
  read again as a lead byte; a sequence cut off by the end of the input yields U+FFFD.
\<close>

record decoder =
  codePoint :: nat
  bytesSeen :: nat
  bytesNeeded :: nat
  lowerBoundary :: nat
  upperBoundary :: nat

definition idle :: decoder where
  "idle = \<lparr>codePoint = 0, bytesSeen = 0, bytesNeeded = 0,
           lowerBoundary = 0x80, upperBoundary = 0xBF\<rparr>"

definition utf8_lead :: "nat \<Rightarrow> nat list \<times> decoder" where
  "utf8_lead byte =
     (if byte \<le> 0x7F then ([byte], idle)
      else if 0xC2 \<le> byte \<and> byte \<le> 0xDF
      then ([], idle\<lparr>bytesNeeded := 1, codePoint := byte mod 32\<rparr>)
      else if 0xE0 \<le> byte \<and> byte \<le> 0xEF
      then ([], idle\<lparr>lowerBoundary := (if byte = 0xE0 then 0xA0 else 0x80),
                      upperBoundary := (if byte = 0xED then 0x9F else 0xBF),
                      bytesNeeded := 2, codePoint := byte mod 16\<rparr>)
      else if 0xF0 \<le> byte \<and> byte \<le> 0xF4
      then ([], idle\<lparr>lowerBoundary := (if byte = 0xF0 then 0x90 else 0x80),
                      upperBoundary := (if byte = 0xF4 then 0x8F else 0xBF),
                      bytesNeeded := 3, codePoint := byte mod 8\<rparr>)
      else ([0xFFFD], idle))"

definition utf8_handler :: "decoder \<Rightarrow> nat \<Rightarrow> nat list \<times> decoder" where
  "utf8_handler d byte =
     (if bytesNeeded d = 0 then utf8_lead byte
      else if byte < lowerBoundary d \<or> upperBoundary d < byte
      then (case utf8_lead byte of (out, d') \<Rightarrow> (0xFFFD # out, d'))
      else (let cp = codePoint d * 64 + byte mod 64
            in if bytesSeen d + 1 \<noteq> bytesNeeded d
               then ([], d\<lparr>lowerBoundary := 0x80, upperBoundary := 0xBF,
                             codePoint := cp, bytesSeen := bytesSeen d + 1\<rparr>)
               else ([cp], idle)))"

fun utf8_decode :: "decoder \<Rightarrow> nat list \<Rightarrow> nat list" where
  "utf8_decode d [] = (if bytesNeeded d \<noteq> 0 then [0xFFFD] else [])"
| "utf8_decode d (byte # rest) =
     (case utf8_handler d byte of (out, d') \<Rightarrow> out @ utf8_decode d' rest)"

text \<open>
  The decoder is made without the \<open>ignoreBOM\<close> option, so a first code point U+FEFF
  is dropped from the output. Code points above U+FFFF become surrogate pairs.
\<close>

definition stripBOM :: "nat list \<Rightarrow> nat list" where
  "stripBOM cs = (case cs of [] \<Rightarrow> [] | c # rest \<Rightarrow> if c = 0xFEFF then rest else cs)"

definition utf16_units :: "nat \<Rightarrow> nat list" where
  "utf16_units c =
     (if c < 0x10000 then [c]
      else [0xD800 + (c - 0x10000) div 0x400, 0xDC00 + (c - 0x10000) mod 0x400])"

definition arrayBufferToString :: "byte list \<Rightarrow> jsstring" where
  "arrayBufferToString buffer =
     map of_nat (concat (map utf16_units (stripBOM (utf8_decode idle (map unat buffer)))))"

text \<open>
  A well-formed string (\<open>String.prototype.isWellFormed\<close>): every surrogate is half of
  a pair.
\<close>

fun wellFormed :: "nat list \<Rightarrow> bool" where
  "wellFormed [] = True"
| "wellFormed [u] = (\<not> highSurrogate u \<and> \<not> lowSurrogate u)"
| "wellFormed (u # v # rest) =
     (if highSurrogate u then lowSurrogate v \<and> wellFormed rest
      else \<not> lowSurrogate u \<and> wellFormed (v # rest))"

subsection \<open>The class\<close>

text \<open>
  \<open>ArrayBuffer.prototype.slice(begin, end)\<close>: a negative index counts from the end,
  every index is clamped to the buffer, and a missing \<open>end\<close> is the length.
\<close>

definition sliceIndex :: "int \<Rightarrow> int \<Rightarrow> nat" where
  "sliceIndex len i = nat (if i < 0 then max (len + i) 0 else min i len)"

definition bufferSlice :: "'a list \<Rightarrow> int \<Rightarrow> int option \<Rightarrow> 'a list" where
  "bufferSlice buffer begin end =
     (let len = int (length buffer);
          first = sliceIndex len begin;
          final = (case end of None \<Rightarrow> length buffer | Some e \<Rightarrow> sliceIndex len e)
      in take (final - first) (drop first buffer))"

text \<open>
  The primitives of \<open>crypto.subtle\<close> that the class calls, each with the algorithm
  parameters that the source fixes; \<open>None\<close> is a rejected promise.
  \<^item> \<open>exportRaw\<close>: \<open>exportKey('raw', publicKey)\<close>;
  \<^item> \<open>importRaw\<close>: \<open>importKey('raw', buffer, {ECDH, P-256}, false, [])\<close>;
  \<^item> \<open>ecdhBits\<close>: \<open>deriveBits({ECDH, public}, privateKey, 256)\<close>;
  \<^item> \<open>pbkdf2Key\<close>: \<open>importKey('raw', bits, {PBKDF2}, ...)\<close> followed by
    \<open>deriveKey({PBKDF2, salt, iterations, SHA-256}, keyMaterial, {AES-GCM, 256}, ...)\<close>;
  \<^item> \<open>gcmEncrypt\<close>, \<open>gcmDecrypt\<close>: \<open>encrypt\<close> and \<open>decrypt\<close> with
    \<open>{AES-GCM, iv, tagLength: 128}\<close>; the output of \<open>gcmEncrypt\<close> is the ciphertext
    followed by the tag.
\<close>

record ('priv, 'pub, 'key) subtle =
  exportRaw :: "'pub \<Rightarrow> byte list option"
  importRaw :: "byte list \<Rightarrow> 'pub option"
  ecdhBits :: "'priv \<Rightarrow> 'pub \<Rightarrow> byte list option"
  pbkdf2Key :: "byte list \<Rightarrow> byte list \<Rightarrow> nat \<Rightarrow> 'key option"
  gcmEncrypt :: "'key \<Rightarrow> byte list \<Rightarrow> byte list \<Rightarrow> byte list option"
  gcmDecrypt :: "'key \<Rightarrow> byte list \<Rightarrow> byte list \<Rightarrow> byte list option"

text \<open>
  The fields of an instance (\<open>algorithm\<close> and \<open>keyLength\<close> are constants that no
  method reads); a key pair is its private and its public key.
\<close>

record ('priv, 'pub, 'key) e2ee =
  keyPair :: "('priv \<times> 'pub) option"
  sharedSecret :: "byte list option"
  encryptionKey :: "'key option"

text \<open>
  What the methods throw: \<open>NotEstablished\<close> is the error
  \<open>Encryption key not established. Perform key exchange first.\<close>; \<open>Rethrown\<close> is an
  error of the platform that the \<open>catch\<close> block throws again; \<open>DecryptFailed\<close> is the
  error \<open>Failed to decrypt message. Possible tampering or wrong key.\<close>
\<close>

datatype e2ee_error = NotEstablished | Rethrown | DecryptFailed

text \<open>
  The object that \<open>encrypt\<close> returns: \<open>{ encryptedData, iv, tag }\<close>, all in base64.
\<close>

record envelope =
  envData :: jsstring
  envIv :: jsstring
  envTag :: jsstring

definition newE2EE :: "('priv, 'pub, 'key) e2ee" where
  "newE2EE = \<lparr>keyPair = None, sharedSecret = None, encryptionKey = None\<rparr>"

text \<open>
  \<open>initializeKeyExchange\<close>; \<open>fresh\<close> is the outcome of \<open>generateKey\<close>, a random key
  pair.
\<close>

definition initializeKeyExchange ::
  "('priv, 'pub, 'key) subtle \<Rightarrow> ('priv \<times> 'pub) option \<Rightarrow> ('priv, 'pub, 'key) e2ee
     \<Rightarrow> ('priv, 'pub, 'key) e2ee \<times> (e2ee_error + jsstring)" where
  "initializeKeyExchange W fresh e =
     (case fresh of
        None \<Rightarrow> (e, Inl Rethrown)
      | Some kp \<Rightarrow>
          (let e1 = e\<lparr>keyPair := Some kp\<rparr>
           in case exportRaw W (snd kp) of
                None \<Rightarrow> (e1, Inl Rethrown)
              | Some publicKey \<Rightarrow>
                  (case arrayBufferToBase64 publicKey of
                     None \<Rightarrow> (e1, Inl Rethrown)
                   | Some b64 \<Rightarrow> (e1, Inr b64))))"

definition salt :: "byte list" where
  "salt = stringToArrayBuffer (js ''SecureChat-E2EE-Salt'')"

text \<open>
  \<open>computeSharedSecret\<close> returns \<open>true\<close>, or \<open>false\<close> from its \<open>catch\<close> block when a
  step throws: \<open>atob\<close>, the import of the peer's key, the read of
  \<open>this.keyPair.privateKey\<close> when \<open>keyPair\<close> is \<open>null\<close>, or a derivation.
\<close>

definition computeSharedSecret ::
  "('priv, 'pub, 'key) subtle \<Rightarrow> jsstring \<Rightarrow> ('priv, 'pub, 'key) e2ee
     \<Rightarrow> ('priv, 'pub, 'key) e2ee \<times> bool" where
  "computeSharedSecret W peerPublicKeyBase64 e =
     (case base64ToArrayBuffer peerPublicKeyBase64 of
        None \<Rightarrow> (e, False)
      | Some peerPublicKeyBuffer \<Rightarrow>
          (case importRaw W peerPublicKeyBuffer of
             None \<Rightarrow> (e, False)
           | Some peerPublicKey \<Rightarrow>
               (case keyPair e of
                  None \<Rightarrow> (e, False)
                | Some (privateKey, publicKey) \<Rightarrow>
                    (case ecdhBits W privateKey peerPublicKey of
                       None \<Rightarrow> (e, False)
                     | Some sharedSecretBits \<Rightarrow>
                         (let e1 = e\<lparr>sharedSecret := Some sharedSecretBits\<rparr>
                          in case pbkdf2Key W sharedSecretBits salt 100000 of
                               None \<Rightarrow> (e1, False)
                             | Some key \<Rightarrow> (e1\<lparr>encryptionKey := Some key\<rparr>, True))))))"

text \<open>
  \<open>encrypt\<close>; \<open>ivBytes\<close> are the 12 bytes of \<open>crypto.getRandomValues\<close>.
\<close>

definition encrypt ::
  "('priv, 'pub, 'key) subtle \<Rightarrow> byte list \<Rightarrow> jsstring \<Rightarrow> ('priv, 'pub, 'key) e2ee
     \<Rightarrow> e2ee_error + envelope" where
  "encrypt W ivBytes message e =
     (case encryptionKey e of
        None \<Rightarrow> Inl NotEstablished
      | Some key \<Rightarrow>
          (let messageBuffer = stringToArrayBuffer message
           in case gcmEncrypt W key ivBytes messageBuffer of
                None \<Rightarrow> Inl Rethrown
              | Some encrypted \<Rightarrow>
                  (let byteLength = int (length encrypted);
                       ciphertext = bufferSlice encrypted 0 (Some (byteLength - 16));
                       tagBytes = bufferSlice encrypted (byteLength - 16) None
                   in case (arrayBufferToBase64 ciphertext, arrayBufferToBase64 ivBytes,
                            arrayBufferToBase64 tagBytes) of
                        (Some c, Some i, Some t) \<Rightarrow>
                          Inr \<lparr>envData = c, envIv = i, envTag = t\<rparr>
                      | _ \<Rightarrow> Inl Rethrown)))"

definition decrypt ::
  "('priv, 'pub, 'key) subtle \<Rightarrow> jsstring \<Rightarrow> jsstring \<Rightarrow> jsstring
     \<Rightarrow> ('priv, 'pub, 'key) e2ee \<Rightarrow> e2ee_error + jsstring" where
  "decrypt W encryptedData ivBase64 tagBase64 e =
     (case encryptionKey e of
        None \<Rightarrow> Inl NotEstablished
      | Some key \<Rightarrow>
          (case base64ToArrayBuffer ivBase64 of
             None \<Rightarrow> Inl DecryptFailed
           | Some ivBytes \<Rightarrow>
               (case base64ToArrayBuffer tagBase64 of
                  None \<Rightarrow> Inl DecryptFailed
                | Some tagBytes \<Rightarrow>
                    (case base64ToArrayBuffer encryptedData of
                       None \<Rightarrow> Inl DecryptFailed
                     | Some ciphertext \<Rightarrow>
                         (case gcmDecrypt W key ivBytes (ciphertext @ tagBytes) of
                            None \<Rightarrow> Inl DecryptFailed
                          | Some decrypted \<Rightarrow> Inr (arrayBufferToString decrypted))))))"

definition isReady :: "('priv, 'pub, 'key) e2ee \<Rightarrow> bool" where
  "isReady e \<longleftrightarrow> encryptionKey e \<noteq> None"

definition reset :: "('priv, 'pub, 'key) e2ee \<Rightarrow> ('priv, 'pub, 'key) e2ee" where
  "reset e = e\<lparr>keyPair := None, sharedSecret := None, encryptionKey := None\<rparr>"

text \<open>
  Decryption of what encryption returned.
\<close>

definition roundtrip ::
  "('priv, 'pub, 'key) subtle \<Rightarrow> byte list \<Rightarrow> jsstring \<Rightarrow> ('priv, 'pub, 'key) e2ee
     \<Rightarrow> e2ee_error + jsstring" where
  "roundtrip W ivBytes message e =
     (case encrypt W ivBytes message e of
        Inl err \<Rightarrow> Inl err
      | Inr env \<Rightarrow> decrypt W (envData env) (envIv env) (envTag env) e)"

text \<open>
  The calls on one instance, in order: the state after a call, whether the call is a
  \<open>computeSharedSecret\<close> that returned \<open>true\<close>, and whether any call of a sequence is.
\<close>

datatype ('priv, 'pub) call =
    InitializeKeyExchange "('priv \<times> 'pub) option"
  | ComputeSharedSecret jsstring
  | Encrypt "byte list" jsstring
  | Decrypt jsstring jsstring jsstring
  | Reset

fun after :: "('priv, 'pub, 'key) subtle \<Rightarrow> ('priv, 'pub) call \<Rightarrow> ('priv, 'pub, 'key) e2ee
                \<Rightarrow> ('priv, 'pub, 'key) e2ee" where
  "after W (InitializeKeyExchange fresh) e = fst (initializeKeyExchange W fresh e)"
| "after W (ComputeSharedSecret peer) e = fst (computeSharedSecret W peer e)"
| "after W (Encrypt ivBytes message) e = e"
| "after W (Decrypt encryptedData ivBase64 tagBase64) e = e"
| "after W Reset e = reset e"

fun derives :: "('priv, 'pub, 'key) subtle \<Rightarrow> ('priv, 'pub) call \<Rightarrow> ('priv, 'pub, 'key) e2ee
                  \<Rightarrow> bool" where
  "derives W (ComputeSharedSecret peer) e = snd (computeSharedSecret W peer e)"
| "derives W _ e = False"

fun afterAll :: "('priv, 'pub, 'key) subtle \<Rightarrow> ('priv, 'pub) call list
                   \<Rightarrow> ('priv, 'pub, 'key) e2ee \<Rightarrow> ('priv, 'pub, 'key) e2ee" where
  "afterAll W [] e = e"
| "afterAll W (c # cs) e = afterAll W cs (after W c e)"

fun everDerived :: "('priv, 'pub, 'key) subtle \<Rightarrow> ('priv, 'pub) call list
                      \<Rightarrow> ('priv, 'pub, 'key) e2ee \<Rightarrow> bool" where
  "everDerived W [] e = False"
| "everDerived W (c # cs) e = (derives W c e \<or> everDerived W cs (after W c e))"

subsection \<open>Auxiliary notions\<close>

text \<open>
  The 6-bit values of a byte string, without padding; Unicode scalar values.
\<close>

fun sextets :: "nat list \<Rightarrow> nat list" where
  "sextets (a # b # c # rest) =
     (a div 4) # ((a mod 4) * 16 + b div 16) # ((b mod 16) * 4 + c div 64) # (c mod 64) #
     sextets rest"
| "sextets [a, b] = [a div 4, (a mod 4) * 16 + b div 16, (b mod 16) * 4]"
| "sextets [a] = [a div 4, (a mod 4) * 16]"
| "sextets [] = []"

definition scalar :: "nat \<Rightarrow> bool" where
  "scalar c \<longleftrightarrow> c < 0x110000 \<and> \<not> (0xD800 \<le> c \<and> c \<le> 0xDFFF)"

text \<open>
  Stand-ins for the primitives, to run the methods on concrete inputs: encryption adds 1
  to every byte and appends a tag of 16 equal bytes, decryption checks the tag. An
  instance that has generated its keys, and the same after a key exchange.
\<close>

definition toyTag :: "byte list \<Rightarrow> byte list \<Rightarrow> byte list \<Rightarrow> byte list" where
  "toyTag key ivBytes plain = replicate 16 (of_nat (length key + length ivBytes + length plain))"

definition toySubtle :: "(byte list, byte list, byte list) subtle" where
  "toySubtle =
     \<lparr>exportRaw = (\<lambda>pub. Some pub),
      importRaw = (\<lambda>raw. if raw = [] then None else Some raw),
      ecdhBits = (\<lambda>priv pub. Some (priv @ pub)),
      pbkdf2Key = (\<lambda>bits s n. Some bits),
      gcmEncrypt = (\<lambda>key ivBytes plain.
         Some (map (\<lambda>b. b + 1) plain @ toyTag key ivBytes plain)),
      gcmDecrypt = (\<lambda>key ivBytes data.
         if length data < 16 then None
         else (let plain = map (\<lambda>b. b - 1) (take (length data - 16) data)
               in if drop (length data - 16) data = toyTag key ivBytes plain
                  then Some plain else None))\<rparr>"

definition toyStarted :: "(byte list, byte list, byte list) e2ee" where
  "toyStarted = fst (initializeKeyExchange toySubtle (Some ([9], [7])) newE2EE)"

definition toyReady :: "(byte list, byte list, byte list) e2ee" where
  "toyReady = fst (computeSharedSecret toySubtle (js ''AQID'') toyStarted)"

definition iv0 :: "byte list" where
  "iv0 = [1, 2, 3, 4, 5, 6, 7, 8, 9, 10, 11, 12]"


section \<open>Properties of the session functions\<close>

lemma hours_expired_iff:
  "hoursSinceCreation now ses \<ge> SESSION_EXPIRY_HOURS \<longleftrightarrow> now - createdAt ses \<ge> expiryHorizon"
proof -
  have "real_of_int (now - createdAt ses) / 3600000 \<ge> 24 \<longleftrightarrow>
        real_of_int (now - createdAt ses) \<ge> 24 * 3600000"
    by (simp add: pos_le_divide_eq)
  also have "\<dots> \<longleftrightarrow> now - createdAt ses \<ge> 86400000"
    by linarith
  finally show ?thesis
    by (simp add: hoursSinceCreation_def SESSION_EXPIRY_HOURS_def expiryHorizon_def)
qed


lemmas handler_defs =
  connect_def create_session_def createSession_def setConn_def addUser_def joinRoom_def
  updateSessionActivity_def join_session_def canJoinSession_def encrypted_message_def
  isSessionValidForMessaging_def disconnect_def leaveAll_def expiryTimer_def sweep_def

lemmas fset_eval = fcard_fempty fcard_finsert_if finsert_fminus_if

text \<open>The lookups that \<open>addUser\<close> relies on.\<close>

lemma createSession_present:
  "sessions (setConn sock sid uid (createSession sid now s)) sid \<noteq> None"
  by (simp add: createSession_def setConn_def)

lemma canJoinSession_present:
  "canJoinSession sid now s = (True, s1) \<Longrightarrow> sessions (setConn sock sid uid s1) sid \<noteq> None"
  by (auto simp: canJoinSession_def setConn_def split: option.splits if_splits)

subsection \<open>The concrete run\<close>

lemma sid0_valid: "isValidSessionId sid0"
  by (simp add: sid0_def isValidSessionId_def base64urlChar_def)

lemma sid0_nonempty: "sid0 \<noteq> []"
  by (simp add: sid0_def)

lemma twoParty_sessions:
  "sessions twoParty =
     [sid0 \<mapsto> \<lparr>users = {|''B'', ''A''|}, createdAt = 0, lastActivity = 1000, maxUsers = 2\<rparr>]"
  by (simp add: twoParty_def connect_def create_session_def createSession_def setConn_def
      addUser_def joinRoom_def updateSessionActivity_def join_session_def sid0_valid
      canJoinSession_def initial_def hours_expired_iff expiryHorizon_def Let_def fset_eval)

lemma twoParty_rooms: "rooms twoParty sid0 = {|''B'', ''A''|}"
  by (simp add: twoParty_def connect_def create_session_def createSession_def setConn_def
      addUser_def joinRoom_def updateSessionActivity_def join_session_def sid0_valid
      canJoinSession_def initial_def hours_expired_iff expiryHorizon_def Let_def fset_eval)

lemma twoParty_conns:
  "conns twoParty ''A'' = \<lparr>currentSessionId = Some sid0, userId = Some ''ua''\<rparr>"
  "conns twoParty ''B'' = \<lparr>currentSessionId = Some sid0, userId = Some ''ub''\<rparr>"
  by (simp_all add: twoParty_def connect_def create_session_def createSession_def setConn_def
      addUser_def joinRoom_def updateSessionActivity_def join_session_def sid0_valid
      canJoinSession_def initial_def hours_expired_iff expiryHorizon_def Let_def fset_eval)

subsection \<open>Capacity\<close>

text \<open>
  \<open>maxUsers\<close> is written once, by \<open>createSession\<close>, and is 2 in every session of every
  state that the server reaches.
\<close>

lemma step_maxUsers:
  "(\<And>i x. sessions s i = Some x \<Longrightarrow> maxUsers x = 2) \<Longrightarrow>
   sessions (step cfg now ev s) sid = Some ses \<Longrightarrow> maxUsers ses = 2"
  by (cases ev)
     (auto simp: handler_defs Let_def split: option.splits if_splits prod.splits)

lemma run_maxUsers_aux:
  "(\<And>i x. sessions s i = Some x \<Longrightarrow> maxUsers x = 2) \<Longrightarrow>
   sessions (run cfg evs s) sid = Some ses \<Longrightarrow> maxUsers ses = 2"
proof (induction evs arbitrary: s)
  case Nil
  then show ?case by simp
next
  case (Cons a evs)
  obtain now ev where a: "a = (now, ev)" by (cases a)
  have inv: "\<And>i x. sessions (step cfg now ev s) i = Some x \<Longrightarrow> maxUsers x = 2"
    using Cons.prems(1) by (rule step_maxUsers)
  from Cons.prems(2) have "sessions (run cfg evs (step cfg now ev s)) sid = Some ses"
    by (simp add: a)
  with inv show ?case by (rule Cons.IH)
qed

lemma run_maxUsers: "sessions (run cfg evs initial) sid = Some ses \<Longrightarrow> maxUsers ses = 2"
  by (rule run_maxUsers_aux [of initial]) (simp_all add: initial_def)

subsection \<open>Admission\<close>

lemma join_not_found:
  "isValidSessionId sid \<Longrightarrow> sessions s sid = None \<Longrightarrow>
   join_session cfg req sock sid uid now s =
     (s, [], JoinError ''Session not available or expired'')"
  by (simp add: join_session_def canJoinSession_def)

lemma join_expired:
  "isValidSessionId sid \<Longrightarrow> sessions s sid = Some ses \<Longrightarrow>
   now - createdAt ses \<ge> expiryHorizon \<Longrightarrow>
   join_session cfg req sock sid uid now s =
     (s\<lparr>sessions := (sessions s)(sid := None)\<rparr>, [],
      JoinError ''Session not available or expired'')"
  by (simp add: join_session_def canJoinSession_def hours_expired_iff)

lemma join_full:
  "isValidSessionId sid \<Longrightarrow> sessions s sid = Some ses \<Longrightarrow>
   now - createdAt ses < expiryHorizon \<Longrightarrow> fcard (users ses) \<ge> maxUsers ses \<Longrightarrow>
   join_session cfg req sock sid uid now s =
     (s, [], JoinError ''Session not available or expired'')"
  by (simp add: join_session_def canJoinSession_def hours_expired_iff)

lemma join_admitted:
  "isValidSessionId sid \<Longrightarrow> sessions s sid = Some ses \<Longrightarrow>
   now - createdAt ses < expiryHorizon \<Longrightarrow> fcard (users ses) < maxUsers ses \<Longrightarrow>
   join_session cfg req sock sid uid now s =
     (s\<lparr>sessions := (sessions s)(sid \<mapsto>
            ses\<lparr>users := finsert sock (users ses), lastActivity := now\<rparr>),
        rooms := (rooms s)(sid := finsert sock (rooms s sid)),
        conns := (conns s)(sock := \<lparr>currentSessionId = Some sid, userId = Some uid\<rparr>)\<rparr>,
      [(rooms s sid |-| {|sock|}, UserJoined (Some uid))],
      Joined uid (fcard (finsert sock (users ses)) = 1)
        (if fcard (finsert sock (users ses)) = 1 then Some (shareLink cfg req sid) else None))"
  by (simp add: join_session_def canJoinSession_def hours_expired_iff setConn_def addUser_def
      joinRoom_def updateSessionActivity_def others_def Let_def)

text \<open>
  C2. The \<open>join-session\<close> handler, for a session id of the valid shape (any other id is
  turned away with \<open>Invalid session ID\<close> before the map is consulted). An id that is not
  in the map fails; a session whose age has reached the horizon fails and is deleted from
  the map; a session that already has 2 users fails; the three failures carry the one
  message \<open>Session not available or expired\<close> and, the eviction apart, leave the state as
  it was. Otherwise the socket is added to the users, \<open>lastActivity\<close> becomes \<open>now\<close>,
  and \<open>isInitiator\<close> is true exactly when the users now number 1. The capacity is the
  session's \<open>maxUsers\<close>, which is 2 in every session (\<open>run_maxUsers\<close>).
\<close>

theorem join_session_admit:
  assumes "isValidSessionId sid"
  shows "(sessions s sid = None \<longrightarrow>
            join_session cfg req sock sid uid now s =
              (s, [], JoinError ''Session not available or expired''))
       \<and> (\<forall>ses. sessions s sid = Some ses \<and> now - createdAt ses \<ge> expiryHorizon \<longrightarrow>
            join_session cfg req sock sid uid now s =
              (s\<lparr>sessions := (sessions s)(sid := None)\<rparr>, [],
               JoinError ''Session not available or expired''))
       \<and> (\<forall>ses. sessions s sid = Some ses \<and> now - createdAt ses < expiryHorizon \<and>
                  maxUsers ses = 2 \<and> fcard (users ses) \<ge> 2 \<longrightarrow>
            join_session cfg req sock sid uid now s =
              (s, [], JoinError ''Session not available or expired''))
       \<and> (\<forall>ses. sessions s sid = Some ses \<and> now - createdAt ses < expiryHorizon \<and>
                  maxUsers ses = 2 \<and> fcard (users ses) < 2 \<longrightarrow>
            join_session cfg req sock sid uid now s =
              (s\<lparr>sessions := (sessions s)(sid \<mapsto>
                     ses\<lparr>users := finsert sock (users ses), lastActivity := now\<rparr>),
                 rooms := (rooms s)(sid := finsert sock (rooms s sid)),
                 conns := (conns s)(sock := \<lparr>currentSessionId = Some sid, userId = Some uid\<rparr>)\<rparr>,
               [(rooms s sid |-| {|sock|}, UserJoined (Some uid))],
               Joined uid (fcard (finsert sock (users ses)) = 1)
                 (if fcard (finsert sock (users ses)) = 1
                  then Some (shareLink cfg req sid) else None)))"
  using assms
  by (simp add: join_not_found join_expired join_full join_admitted)

text \<open>
  The four cases at concrete states: an empty map; a session of age 24 hours; the
  session of \<open>A\<close> and \<open>B\<close> with a third socket; a fresh session, whose first socket is
  the initiator, and the session of \<open>A\<close> alone, whose second socket is not.
\<close>

theorem join_session_admit_witness:
  "isValidSessionId sid0 \<and>
   join_session cfg0 req0 ''A'' sid0 ''ua'' 1000 initial =
     (initial, [], JoinError ''Session not available or expired'') \<and>
   join_session cfg0 req0 ''A'' sid0 ''ua'' 86400000 (createSession sid0 0 initial) =
     (initial, [], JoinError ''Session not available or expired'') \<and>
   join_session cfg0 req0 ''C'' sid0 ''uc'' 2000 twoParty =
     (twoParty, [], JoinError ''Session not available or expired'') \<and>
   snd (snd (join_session cfg0 req0 ''A'' sid0 ''ua'' 1000 (createSession sid0 0 initial))) =
     Joined ''ua'' True (Some (''http://localhost:3000/chat/'' @ sid0)) \<and>
   snd (snd (join_session cfg0 req0 ''B'' sid0 ''ub'' 1000
               (fst (create_session cfg0 req0 ''A'' sid0 ''ua'' 0 initial)))) =
     Joined ''ub'' False None"
proof -
  note T = join_session_admit [OF sid0_valid]
  have 1: "join_session cfg0 req0 ''A'' sid0 ''ua'' 1000 initial =
             (initial, [], JoinError ''Session not available or expired'')"
    using T [of initial cfg0 req0 "''A''" "''ua''" 1000]
    by (simp add: initial_def)
  have 2: "join_session cfg0 req0 ''A'' sid0 ''ua'' 86400000 (createSession sid0 0 initial) =
             (initial, [], JoinError ''Session not available or expired'')"
    using T [of "createSession sid0 0 initial" cfg0 req0 "''A''" "''ua''" 86400000]
    by (simp add: createSession_def initial_def expiryHorizon_def)
  have 3: "join_session cfg0 req0 ''C'' sid0 ''uc'' 2000 twoParty =
             (twoParty, [], JoinError ''Session not available or expired'')"
    using T [of twoParty cfg0 req0 "''C''" "''uc''" 2000]
    by (simp add: twoParty_sessions expiryHorizon_def fset_eval)
  have 4: "snd (snd (join_session cfg0 req0 ''A'' sid0 ''ua'' 1000 (createSession sid0 0 initial))) =
             Joined ''ua'' True (Some (''http://localhost:3000/chat/'' @ sid0))"
    using T [of "createSession sid0 0 initial" cfg0 req0 "''A''" "''ua''" 1000]
    by (simp add: createSession_def initial_def expiryHorizon_def fset_eval shareLink_def
        truthy_def cfg0_def req0_def)
  have 5: "snd (snd (join_session cfg0 req0 ''B'' sid0 ''ub'' 1000
                       (fst (create_session cfg0 req0 ''A'' sid0 ''ua'' 0 initial)))) =
             Joined ''ub'' False None"
    using T [of "fst (create_session cfg0 req0 ''A'' sid0 ''ua'' 0 initial)" cfg0 req0
                "''B''" "''ub''" 1000]
    by (simp add: create_session_def createSession_def setConn_def addUser_def joinRoom_def
        updateSessionActivity_def initial_def expiryHorizon_def fset_eval Let_def)
  from sid0_valid 1 2 3 4 5 show ?thesis by simp
qed


subsection \<open>Relay of encrypted messages\<close>

lemma valid_state:
  "fst (isSessionValidForMessaging sid now s) \<Longrightarrow>
   isSessionValidForMessaging sid now s = (True, s)"
  by (auto simp: isSessionValidForMessaging_def split: option.splits if_splits)

lemma relay_no_session:
  "truthy (currentSessionId (conns s sock)) = None \<Longrightarrow>
   encrypted_message sock d iv tag now s =
     (s, [({|sock|}, Error ''Session expired or invalid'')])"
  by (simp add: encrypted_message_def)

lemma relay_invalid:
  "truthy (currentSessionId (conns s sock)) = Some sid \<Longrightarrow>
   \<not> fst (isSessionValidForMessaging sid now s) \<Longrightarrow>
   encrypted_message sock d iv tag now s =
     (snd (isSessionValidForMessaging sid now s),
      [({|sock|}, Error ''Session expired or invalid'')])"
  by (cases "isSessionValidForMessaging sid now s") (auto simp: encrypted_message_def)

lemma relay_not_member:
  "truthy (currentSessionId (conns s sock)) = Some sid \<Longrightarrow>
   fst (isSessionValidForMessaging sid now s) \<Longrightarrow>
   sessions s sid = Some ses \<Longrightarrow> sock |\<notin>| users ses \<Longrightarrow>
   encrypted_message sock d iv tag now s =
     (s, [({|sock|}, Error ''Not a member of this session'')])"
  by (simp add: encrypted_message_def valid_state)

lemma relay_forward:
  "truthy (currentSessionId (conns s sock)) = Some sid \<Longrightarrow>
   fst (isSessionValidForMessaging sid now s) \<Longrightarrow>
   sessions s sid = Some ses \<Longrightarrow> sock |\<in>| users ses \<Longrightarrow>
   encrypted_message sock d iv tag now s =
     (updateSessionActivity sid now s,
      [(rooms s sid |-| {|sock|}, EncryptedMessage d iv tag now)])"
  by (simp add: encrypted_message_def valid_state others_def)

text \<open>
  C3. The \<open>encrypted-message\<close> handler. A socket with no session id gets an error; so
  does one whose session fails \<open>isSessionValidForMessaging\<close> (both with the message
  \<open>Session expired or invalid\<close>, the second with the state that the check leaves); a
  socket that is not among the users of its session gets \<open>Not a member of this session\<close>.
  Otherwise the state is that of \<open>updateSessionActivity\<close> and the three fields go
  unchanged, with the time of the relay, to the other sockets of the session's room.
\<close>

theorem encrypted_message_relay:
  "(truthy (currentSessionId (conns s sock)) = None \<longrightarrow>
      encrypted_message sock d iv tag now s =
        (s, [({|sock|}, Error ''Session expired or invalid'')]))
 \<and> (\<forall>sid. truthy (currentSessionId (conns s sock)) = Some sid \<and>
            \<not> fst (isSessionValidForMessaging sid now s) \<longrightarrow>
      encrypted_message sock d iv tag now s =
        (snd (isSessionValidForMessaging sid now s),
         [({|sock|}, Error ''Session expired or invalid'')]))
 \<and> (\<forall>sid ses. truthy (currentSessionId (conns s sock)) = Some sid \<and>
            fst (isSessionValidForMessaging sid now s) \<and>
            sessions s sid = Some ses \<and> sock |\<notin>| users ses \<longrightarrow>
      encrypted_message sock d iv tag now s =
        (s, [({|sock|}, Error ''Not a member of this session'')]))
 \<and> (\<forall>sid ses. truthy (currentSessionId (conns s sock)) = Some sid \<and>
            fst (isSessionValidForMessaging sid now s) \<and>
            sessions s sid = Some ses \<and> sock |\<in>| users ses \<longrightarrow>
      encrypted_message sock d iv tag now s =
        (updateSessionActivity sid now s,
         [(rooms s sid |-| {|sock|}, EncryptedMessage d iv tag now)]))"
  by (simp add: relay_no_session relay_invalid relay_not_member relay_forward)

theorem encrypted_message_relay_witness:
  "snd (encrypted_message ''X'' ''c'' ''i'' ''t'' 2000 initial) =
     [({|''X''|}, Error ''Session expired or invalid'')] \<and>
   encrypted_message ''A'' ''c'' ''i'' ''t'' 86400000 twoParty =
     (twoParty\<lparr>sessions := Map.empty\<rparr>, [({|''A''|}, Error ''Session expired or invalid'')]) \<and>
   encrypted_message ''Z'' ''c'' ''i'' ''t'' 2000 stranger =
     (stranger, [({|''Z''|}, Error ''Not a member of this session'')]) \<and>
   snd (encrypted_message ''A'' ''c'' ''i'' ''t'' 2000 twoParty) =
     [({|''B''|}, EncryptedMessage ''c'' ''i'' ''t'' 2000)] \<and>
   sessions (fst (encrypted_message ''A'' ''c'' ''i'' ''t'' 2000 twoParty)) sid0 =
     Some \<lparr>users = {|''B'', ''A''|}, createdAt = 0, lastActivity = 2000, maxUsers = 2\<rparr>"
proof -
  have 1: "snd (encrypted_message ''X'' ''c'' ''i'' ''t'' 2000 initial) =
             [({|''X''|}, Error ''Session expired or invalid'')]"
    using encrypted_message_relay [of initial "''X''" "''c''" "''i''" "''t''" 2000]
    by (simp add: initial_def truthy_def)
  have A: "truthy (currentSessionId (conns twoParty ''A'')) = Some sid0"
    by (simp add: twoParty_conns truthy_def sid0_nonempty)
  have 2: "encrypted_message ''A'' ''c'' ''i'' ''t'' 86400000 twoParty =
             (twoParty\<lparr>sessions := Map.empty\<rparr>,
              [({|''A''|}, Error ''Session expired or invalid'')])"
    using encrypted_message_relay [of twoParty "''A''" "''c''" "''i''" "''t''" 86400000] A
    by (simp add: isSessionValidForMessaging_def twoParty_sessions hours_expired_iff
        expiryHorizon_def)
  have Z: "truthy (currentSessionId (conns stranger ''Z'')) = Some sid0"
    by (simp add: stranger_def truthy_def sid0_nonempty)
  have 3: "encrypted_message ''Z'' ''c'' ''i'' ''t'' 2000 stranger =
             (stranger, [({|''Z''|}, Error ''Not a member of this session'')])"
    using encrypted_message_relay [of stranger "''Z''" "''c''" "''i''" "''t''" 2000] Z
    by (simp add: isSessionValidForMessaging_def stranger_def twoParty_sessions
        hours_expired_iff expiryHorizon_def)
  have 4: "encrypted_message ''A'' ''c'' ''i'' ''t'' 2000 twoParty =
             (updateSessionActivity sid0 2000 twoParty,
              [({|''B''|}, EncryptedMessage ''c'' ''i'' ''t'' 2000)])"
    using encrypted_message_relay [of twoParty "''A''" "''c''" "''i''" "''t''" 2000] A
    by (simp add: isSessionValidForMessaging_def twoParty_sessions twoParty_rooms
        hours_expired_iff expiryHorizon_def fset_eval)
  have 5: "sessions (updateSessionActivity sid0 2000 twoParty) sid0 =
             Some \<lparr>users = {|''B'', ''A''|}, createdAt = 0, lastActivity = 2000, maxUsers = 2\<rparr>"
    by (simp add: updateSessionActivity_def twoParty_sessions)
  from 1 2 3 4 5 show ?thesis by simp
qed

subsection \<open>Validity for messaging\<close>

text \<open>
  C5. \<open>isSessionValidForMessaging\<close> answers true exactly when the session is in the map
  and its age is below the horizon; the number of users plays no part, so a session with
  2 users and an age below the horizon is valid, and a session whose age has reached
  the horizon is invalid whoever asks. (When it answers false for an expired session it
  also deletes it.)
\<close>

theorem canRelay_iff:
  "(fst (isSessionValidForMessaging sid now s) \<longleftrightarrow>
      (case sessions s sid of
         None \<Rightarrow> False
       | Some ses \<Rightarrow> now - createdAt ses < expiryHorizon))
 \<and> (\<forall>ses. sessions s sid = Some ses \<and> fcard (users ses) = 2 \<and>
            now - createdAt ses < expiryHorizon \<longrightarrow>
      fst (isSessionValidForMessaging sid now s))
 \<and> (\<forall>ses. sessions s sid = Some ses \<and> now - createdAt ses \<ge> expiryHorizon \<longrightarrow>
      \<not> fst (isSessionValidForMessaging sid now s))"
  by (simp add: isSessionValidForMessaging_def hours_expired_iff not_le split: option.splits)

theorem canRelay_iff_witness:
  "fst (isSessionValidForMessaging sid0 86399999 twoParty) \<and>
   \<not> fst (isSessionValidForMessaging sid0 86400000 twoParty) \<and>
   \<not> fst (isSessionValidForMessaging sid0 2000 initial)"
proof -
  have 1: "fst (isSessionValidForMessaging sid0 86399999 twoParty)"
    using canRelay_iff [of sid0 86399999 twoParty]
    by (simp add: twoParty_sessions expiryHorizon_def fset_eval)
  have 2: "\<not> fst (isSessionValidForMessaging sid0 86400000 twoParty)"
    using canRelay_iff [of sid0 86400000 twoParty]
    by (simp add: twoParty_sessions expiryHorizon_def)
  have 3: "\<not> fst (isSessionValidForMessaging sid0 2000 initial)"
    using canRelay_iff [of sid0 2000 initial]
    by (simp add: initial_def)
  from 1 2 3 show ?thesis by simp
qed

subsection \<open>Activity\<close>

lemma touches_Nil: "touches [] s = s"
  by (simp add: touches_def)

lemma touches_Cons: "touches ((i, t) # ts) s = touches ts (updateSessionActivity i t s)"
  by (simp add: touches_def)

lemma touches_sessions:
  "case sessions s sid of
     None \<Rightarrow> sessions (touches ts s) sid = None
   | Some ses \<Rightarrow> \<exists>t. sessions (touches ts s) sid = Some (ses\<lparr>lastActivity := t\<rparr>)"
proof (induction ts arbitrary: s)
  case Nil
  show ?case
  proof (cases "sessions s sid")
    case None
    then show ?thesis by (simp add: touches_Nil)
  next
    case (Some ses)
    have "ses = ses\<lparr>lastActivity := lastActivity ses\<rparr>" by simp
    then have "\<exists>t. ses = ses\<lparr>lastActivity := t\<rparr>" by (rule exI)
    with Some show ?thesis by (simp add: touches_Nil)
  qed
next
  case (Cons a ts)
  obtain i t where a: "a = (i, t)" by (cases a)
  let ?s1 = "updateSessionActivity i t s"
  note IH = Cons.IH [of ?s1]
  show ?case
  proof (cases "sessions s sid")
    case None
    then have "sessions ?s1 sid = None"
      by (auto simp: updateSessionActivity_def split: option.splits)
    with IH None show ?thesis by (simp add: a touches_Cons)
  next
    case (Some ses)
    then obtain t1 where s1: "sessions ?s1 sid = Some (ses\<lparr>lastActivity := t1\<rparr>)"
    proof (cases "i = sid")
      case True
      with Some have "sessions ?s1 sid = Some (ses\<lparr>lastActivity := t\<rparr>)"
        by (simp add: updateSessionActivity_def)
      then show ?thesis by (rule that)
    next
      case False
      with Some have "sessions ?s1 sid = Some (ses\<lparr>lastActivity := lastActivity ses\<rparr>)"
        by (simp add: updateSessionActivity_def split: option.splits)
      then show ?thesis by (rule that)
    qed
    with IH obtain t2 where
      "sessions (touches ts ?s1) sid = Some (ses\<lparr>lastActivity := t1, lastActivity := t2\<rparr>)"
      by auto
    then have "sessions (touches ts ?s1) sid = Some (ses\<lparr>lastActivity := t2\<rparr>)" by simp
    with Some show ?thesis by (auto simp: a touches_Cons)
  qed
qed

lemma touches_rest: "rooms (touches ts s) = rooms s \<and> conns (touches ts s) = conns s"
proof (induction ts arbitrary: s)
  case Nil
  show ?case by (simp add: touches_Nil)
next
  case (Cons a ts)
  obtain i t where a: "a = (i, t)" by (cases a)
  have "rooms (updateSessionActivity i t s) = rooms s \<and>
        conns (updateSessionActivity i t s) = conns s"
    by (simp add: updateSessionActivity_def split: option.splits)
  with Cons.IH [of "updateSessionActivity i t s"] show ?case
    by (simp add: a touches_Cons)
qed

lemma touches_createdAt:
  "map_option createdAt (sessions (touches ts s) sid) = map_option createdAt (sessions s sid)"
  using touches_sessions [where s = s and sid = sid and ts = ts]
  by (cases "sessions s sid") auto

lemma valid_depends_on_createdAt:
  "map_option createdAt (sessions s' sid) = map_option createdAt (sessions s sid) \<Longrightarrow>
   fst (isSessionValidForMessaging sid now s') = fst (isSessionValidForMessaging sid now s)"
  by (cases "sessions s sid"; cases "sessions s' sid")
     (auto simp: isSessionValidForMessaging_def hoursSinceCreation_def)

text \<open>
  C7. After any sequence of \<open>updateSessionActivity\<close> calls, on any sessions and at any
  times, every session of the map is the session it was but for its \<open>lastActivity\<close>
  (so \<open>createdAt\<close>, \<open>users\<close> and \<open>maxUsers\<close> are what they were), no session has appeared
  or gone, rooms and closures are untouched, and at every time \<open>now\<close> the session is
  valid for messaging after the calls exactly when it was before them: the calls do not
  move the expiry.
\<close>

theorem touch_frame:
  "rooms (touches ts s) = rooms s \<and> conns (touches ts s) = conns s \<and>
   (\<forall>sid. case sessions s sid of
            None \<Rightarrow> sessions (touches ts s) sid = None
          | Some ses \<Rightarrow> \<exists>t. sessions (touches ts s) sid = Some (ses\<lparr>lastActivity := t\<rparr>)) \<and>
   (\<forall>sid now. fst (isSessionValidForMessaging sid now (touches ts s)) =
               fst (isSessionValidForMessaging sid now s))"
  using touches_rest touches_sessions valid_depends_on_createdAt [OF touches_createdAt]
  by blast


subsection \<open>Relay of key material and typing notices\<close>

text \<open>
  C10. The \<open>key-exchange\<close> handler. A socket whose closure holds no session id (\<open>null\<close>;
  the empty string counts as none) has the event dropped: nothing is emitted. A socket
  whose closure holds a session id has the public key forwarded to the other sockets of
  that session's room. The handler never reads the \<open>sessions\<close> map nor the clock: with
  any other map in its place, the emission is the same, whether the session is expired,
  absent, or does not list the sender among its users.
\<close>

theorem key_exchange_forward:
  "(truthy (currentSessionId (conns s sock)) = None \<longrightarrow> key_exchange sock pk s = []) \<and>
   (\<forall>sid. currentSessionId (conns s sock) = Some sid \<and> sid \<noteq> [] \<longrightarrow>
      key_exchange sock pk s = [(rooms s sid |-| {|sock|}, KeyExchange pk)]) \<and>
   (\<forall>reg. key_exchange sock pk (s\<lparr>sessions := reg\<rparr>) = key_exchange sock pk s)"
  by (simp add: key_exchange_def truthy_def others_def split: option.splits)

text \<open>
  A socket without session; a member; the same member once the session is gone from the
  map; and a socket that is not among the users of the session its closure names.
\<close>

theorem key_exchange_forward_witness:
  "key_exchange ''X'' ''pk'' initial = [] \<and>
   key_exchange ''A'' ''pk'' twoParty = [({|''B''|}, KeyExchange ''pk'')] \<and>
   key_exchange ''A'' ''pk'' (twoParty\<lparr>sessions := Map.empty\<rparr>) =
     [({|''B''|}, KeyExchange ''pk'')] \<and>
   key_exchange ''Z'' ''pk'' stranger = [({|''B'', ''A''|}, KeyExchange ''pk'')]"
proof -
  have 1: "key_exchange ''X'' ''pk'' initial = []"
    using key_exchange_forward [of initial "''X''" "''pk''"]
    by (simp add: initial_def truthy_def)
  have 2: "key_exchange ''A'' ''pk'' twoParty = [({|''B''|}, KeyExchange ''pk'')]"
    using key_exchange_forward [of twoParty "''A''" "''pk''"]
    by (simp add: twoParty_conns sid0_nonempty twoParty_rooms fset_eval)
  have 3: "key_exchange ''A'' ''pk'' (twoParty\<lparr>sessions := Map.empty\<rparr>) =
             key_exchange ''A'' ''pk'' twoParty"
    using key_exchange_forward [of twoParty "''A''" "''pk''"] by blast
  have 4: "key_exchange ''Z'' ''pk'' stranger = [({|''B'', ''A''|}, KeyExchange ''pk'')]"
    using key_exchange_forward [of stranger "''Z''" "''pk''"]
    by (simp add: stranger_def sid0_nonempty twoParty_rooms fset_eval)
  from 1 2 3 4 show ?thesis by simp
qed

text \<open>
  C6, as stated, fails: the \<open>typing\<close> handler makes neither check of the
  \<open>encrypted-message\<close> handler. In the session of \<open>A\<close> and \<open>B\<close>, 24 hours after its
  creation, a typing notice of \<open>A\<close> reaches \<open>B\<close>, while an encrypted message of \<open>A\<close> is
  refused as \<open>Session expired or invalid\<close>; and the notice of a socket that is not among
  the users of the session is forwarded, while its encrypted message is refused.
\<close>

theorem typing_unchecked_counterexample:
  "typing ''A'' True twoParty = [({|''B''|}, UserTyping (Some ''ua'') True)] \<and>
   snd (encrypted_message ''A'' ''c'' ''i'' ''t'' 86400000 twoParty) =
     [({|''A''|}, Error ''Session expired or invalid'')] \<and>
   typing ''Z'' True stranger = [({|''B'', ''A''|}, UserTyping (Some ''uz'') True)] \<and>
   snd (encrypted_message ''Z'' ''c'' ''i'' ''t'' 2000 stranger) =
     [({|''Z''|}, Error ''Not a member of this session'')]"
  by (simp add: typing_def encrypted_message_def truthy_def twoParty_conns sid0_nonempty
      others_def twoParty_rooms isSessionValidForMessaging_def twoParty_sessions
      stranger_def hours_expired_iff expiryHorizon_def fset_eval)

text \<open>
  C6, amended. The \<open>typing\<close> handler drops the notice of a socket whose closure holds no
  session id, and forwards every other notice, with the sender's user id, to the other
  sockets of the room of the session that the closure names. It makes no check of
  session validity or of membership: it never reads the \<open>sessions\<close> map nor the clock.
\<close>

theorem typing_forward:
  "(truthy (currentSessionId (conns s sock)) = None \<longrightarrow> typing sock b s = []) \<and>
   (\<forall>sid. currentSessionId (conns s sock) = Some sid \<and> sid \<noteq> [] \<longrightarrow>
      typing sock b s = [(rooms s sid |-| {|sock|}, UserTyping (userId (conns s sock)) b)]) \<and>
   (\<forall>reg. typing sock b (s\<lparr>sessions := reg\<rparr>) = typing sock b s)"
  by (simp add: typing_def truthy_def others_def split: option.splits)

theorem typing_forward_witness:
  "typing ''X'' True initial = [] \<and>
   typing ''B'' False twoParty = [({|''A''|}, UserTyping (Some ''ub'') False)] \<and>
   typing ''B'' False (twoParty\<lparr>sessions := Map.empty\<rparr>) =
     [({|''A''|}, UserTyping (Some ''ub'') False)]"
proof -
  have 1: "typing ''X'' True initial = []"
    using typing_forward [of initial "''X''" True]
    by (simp add: initial_def truthy_def)
  have 2: "typing ''B'' False twoParty = [({|''A''|}, UserTyping (Some ''ub'') False)]"
    using typing_forward [of twoParty "''B''" False]
    by (simp add: twoParty_conns sid0_nonempty twoParty_rooms fset_eval)
  have 3: "typing ''B'' False (twoParty\<lparr>sessions := Map.empty\<rparr>) = typing ''B'' False twoParty"
    using typing_forward [of twoParty "''B''" False] by blast
  from 1 2 3 show ?thesis by simp
qed

subsection \<open>Sessions without users\<close>









section \<open>Properties of the encryption module\<close>

subsection \<open>Base64 decoding undoes base64 encoding\<close>

lemma b64val_b64char: "i < 64 \<Longrightarrow> b64val (b64char i) = Some i"
  unfolding b64val_def b64char_def by auto

lemma b64char_not_pad: "i < 64 \<Longrightarrow> b64char i \<noteq> 61"
  unfolding b64char_def by auto

lemma b64char_not_ws: "i < 64 \<Longrightarrow> \<not> asciiWhitespace (b64char i)"
  unfolding b64char_def asciiWhitespace_def by auto

lemma b64char_small: "i < 64 \<Longrightarrow> b64char i < 128"
  unfolding b64char_def by auto

lemma pad_not_ws: "\<not> asciiWhitespace 61"
  by (simp add: asciiWhitespace_def)

lemma sextet_bounds:
  "a div 4 < 64 \<longleftrightarrow> a < 256"
  "b < 256 \<Longrightarrow> (a mod 4) * 16 + b div 16 < 64"
  "c < 256 \<Longrightarrow> (b mod 16) * 4 + c div 64 < 64"
  "c mod 64 < 64"
  "(a mod 4) * 16 < 64"
  "(b mod 16) * 4 < 64"
  for a b c :: nat
  by auto

lemma sextets_bound: "list_all (\<lambda>x. x < 256) xs \<Longrightarrow> list_all (\<lambda>v. v < 64) (sextets xs)"
  by (induction xs rule: sextets.induct) auto

lemma sextets_length: "length (sextets xs) mod 4 \<noteq> 1"
  by (induction xs rule: sextets.induct) auto

lemma btoa_groups_length: "length (btoa_groups xs) mod 4 = 0"
  by (induction xs rule: btoa_groups.induct) auto

lemma btoa_groups_Nil: "btoa_groups xs = [] \<longleftrightarrow> xs = []"
  by (cases xs rule: btoa_groups.cases) auto

lemma btoa_groups_chars:
  "list_all (\<lambda>x. x < 256) xs \<Longrightarrow>
   list_all (\<lambda>c. c < 128 \<and> \<not> asciiWhitespace c) (btoa_groups xs)"
  by (induction xs rule: btoa_groups.induct)
     (simp_all add: b64char_small b64char_not_ws sextet_bounds pad_not_ws)

lemma stripPadding_append:
  assumes "length pre mod 4 = 0" "length d mod 4 = 0" "d \<noteq> []"
  shows "stripPadding (pre @ d) = pre @ stripPadding d"
proof -
  from assms(3) have "length d \<noteq> 0" by simp
  with assms(2) have "length (rev d) \<ge> 2" by (simp; presburger)
  then obtain x y r where r: "rev d = x # y # r"
    by (cases "rev d"; cases "tl (rev d)") auto
  then have "rev (rev d) = rev (x # y # r)" by simp
  then have d: "d = rev r @ [y, x]" by simp
  from assms(1,2) have "length (pre @ d) mod 4 = 0" by (simp; presburger)
  then show ?thesis using assms(2)
    by (simp add: stripPadding_def d)
qed

lemma stripPadding_btoa_groups:
  "list_all (\<lambda>x. x < 256) xs \<Longrightarrow> stripPadding (btoa_groups xs) = map b64char (sextets xs)"
proof (induction xs rule: btoa_groups.induct)
  case (1 a b c rest)
  let ?pre = "[b64char (a div 4), b64char ((a mod 4) * 16 + b div 16),
               b64char ((b mod 16) * 4 + c div 64), b64char (c mod 64)]"
  from 1 have IH: "stripPadding (btoa_groups rest) = map b64char (sextets rest)" by simp
  show ?case
  proof (cases "rest = []")
    case True
    then show ?thesis
      by (simp add: stripPadding_def b64char_not_pad sextet_bounds)
  next
    case False
    then have "btoa_groups rest \<noteq> []" by (simp add: btoa_groups_Nil)
    then have "stripPadding (?pre @ btoa_groups rest) = ?pre @ stripPadding (btoa_groups rest)"
      by (intro stripPadding_append) (simp_all add: btoa_groups_length)
    with IH show ?thesis by simp
  qed
next
  case (2 a b)
  then show ?case by (simp add: stripPadding_def b64char_not_pad sextet_bounds)
next
  case (3 a)
  then show ?case by (simp add: stripPadding_def)
next
  case 4
  show ?case by (simp add: stripPadding_def)
qed

lemma filter_id: "list_all (\<lambda>c. \<not> P c) xs \<Longrightarrow> filter (\<lambda>c. \<not> P c) xs = xs"
  by (induction xs) auto

lemma those_b64val:
  "list_all (\<lambda>v. v < 64) vs \<Longrightarrow> those (map b64val (map b64char vs)) = Some vs"
  by (induction vs) (simp_all add: b64val_b64char)

lemma atob_groups_sextets: "list_all (\<lambda>x. x < 256) xs \<Longrightarrow> atob_groups (sextets xs) = xs"
proof (induction xs rule: sextets.induct)
  case (1 a b c rest)
  then have "b div 16 < 16" "c div 64 < 4" by auto
  then have "(a div 4) * 4 + ((a mod 4) * 16 + b div 16) div 16 = a"
    "(((a mod 4) * 16 + b div 16) mod 16) * 16 + ((b mod 16) * 4 + c div 64) div 4 = b"
    "(((b mod 16) * 4 + c div 64) mod 4) * 64 + c mod 64 = c"
    by auto
  with 1 show ?case by simp
next
  case (2 a b)
  then have "b div 16 < 16" by auto
  then have "(a div 4) * 4 + ((a mod 4) * 16 + b div 16) div 16 = a"
    "(((a mod 4) * 16 + b div 16) mod 16) * 16 + ((b mod 16) * 4) div 4 = b"
    by auto
  then show ?case by simp
next
  case (3 a)
  show ?case by simp
next
  case 4
  show ?case by simp
qed

lemma atob_btoa_groups:
  assumes "list_all (\<lambda>x. x < 256) xs"
  shows "(let d = stripPadding (filter (\<lambda>c. \<not> asciiWhitespace c) (btoa_groups xs))
          in if length d mod 4 = 1 then None
             else (case those (map b64val d) of
                     None \<Rightarrow> None
                   | Some vs \<Rightarrow> Some (map of_nat (atob_groups vs) :: 16 word list))) =
         Some (map of_nat xs)"
proof -
  from btoa_groups_chars [OF assms]
  have "list_all (\<lambda>c. \<not> asciiWhitespace c) (btoa_groups xs)"
    by (simp add: list_all_iff)
  then have "filter (\<lambda>c. \<not> asciiWhitespace c) (btoa_groups xs) = btoa_groups xs"
    by (rule filter_id)
  then have d: "stripPadding (filter (\<lambda>c. \<not> asciiWhitespace c) (btoa_groups xs)) =
                map b64char (sextets xs)"
    using assms by (simp add: stripPadding_btoa_groups)
  have len: "length (map b64char (sextets xs)) mod 4 \<noteq> 1"
    using sextets_length [of xs] by simp
  have th: "those (map b64val (map b64char (sextets xs))) = Some (sextets xs)"
    using assms by (intro those_b64val sextets_bound)
  show ?thesis
    unfolding Let_def d th using len assms
    by (simp add: atob_groups_sextets)
qed

lemma byte_lt: "unat (b :: byte) < 256"
  using unsigned_less [of b, where 'a = nat] by simp

lemma unit_lt: "unat (u :: 16 word) < 65536"
  using unsigned_less [of u, where 'a = nat] by simp

lemma unat_of_nat16: "n < 65536 \<Longrightarrow> unat (of_nat n :: 16 word) = n"
  by (simp add: unat_of_nat)

lemma unat_of_nat8: "n < 256 \<Longrightarrow> unat (of_nat n :: byte) = n"
  by (simp add: unat_of_nat)

lemma unat_up: "unat (ucast b :: 16 word) = unat b" for b :: byte
proof -
  have "unat b < 2 ^ 16" using byte_lt [of b] by simp
  then show ?thesis by (simp add: unsigned_ucast_eq take_bit_nat_eq_self)
qed

lemma down_up: "(ucast (ucast b :: 16 word) :: byte) = b" for b :: byte
proof -
  have "unat (ucast (ucast b :: 16 word) :: byte) =
          take_bit LENGTH(8) (unat (ucast b :: 16 word))"
    by (rule unsigned_ucast_eq)
  also have "\<dots> = take_bit LENGTH(8) (unat b)"
    by (simp only: unat_up)
  also have "\<dots> = unat b"
    using byte_lt [of b] by (simp add: take_bit_nat_eq_self)
  finally show ?thesis by (rule unsigned_word_eqI)
qed

lemma map_unat_of_nat16:
  "list_all (\<lambda>c. c < 128) cs \<Longrightarrow> map unat (map of_nat cs :: 16 word list) = cs"
  by (induction cs) (simp_all add: unat_of_nat16)

lemma map_unat_of_nat8:
  "list_all (\<lambda>b. b < 256) bs \<Longrightarrow> map unat (map of_nat bs :: byte list) = bs"
  by (induction bs) (simp_all add: unat_of_nat8)

text \<open>
  Every byte buffer has a base64 text, and \<open>base64ToArrayBuffer\<close> gives the buffer back.
\<close>

lemma base64_roundtrip:
  "\<exists>t. arrayBufferToBase64 buffer = Some t \<and> base64ToArrayBuffer t = Some buffer"
proof -
  let ?xs = "map unat (map ucast buffer :: 16 word list)"
  have small: "list_all (\<lambda>x. x < 256) ?xs"
    by (induction buffer) (simp_all add: unat_up byte_lt)
  have le: "list_all (\<lambda>u. unat u \<le> 255) (map ucast buffer :: 16 word list)"
  proof (induction buffer)
    case Nil
    show ?case by simp
  next
    case (Cons b buffer)
    have "unat b \<le> 255" using byte_lt [of b] by simp
    with Cons show ?case by (simp add: unat_up)
  qed
  let ?t = "map of_nat (btoa_groups ?xs) :: 16 word list"
  have t: "arrayBufferToBase64 buffer = Some ?t"
    using le by (simp add: arrayBufferToBase64_def btoa_def)
  have "list_all (\<lambda>c. c < 128) (btoa_groups ?xs)"
    using btoa_groups_chars [OF small] by (simp add: list_all_iff)
  then have unat_t: "map unat ?t = btoa_groups ?xs"
    by (rule map_unat_of_nat16)
  have "atob ?t = Some (map of_nat ?xs)"
    unfolding atob_def unat_t by (rule atob_btoa_groups [OF small])
  moreover have "map ucast (map of_nat ?xs :: 16 word list) = buffer"
    by (induction buffer) (simp_all add: down_up)
  ultimately have "base64ToArrayBuffer ?t = Some buffer"
    by (simp add: base64ToArrayBuffer_def)
  with t show ?thesis by blast
qed

subsection \<open>UTF-8 decoding undoes UTF-8 encoding\<close>

lemma mod_shift: "a < m \<Longrightarrow> (m * k + a) mod m = a" for a :: nat
  by simp

lemma mod_offsets:
  "a < 32 \<Longrightarrow> (192 + a) mod 32 = a"
  "a < 16 \<Longrightarrow> (224 + a) mod 16 = a"
  "a < 8 \<Longrightarrow> (240 + a) mod 8 = a"
  "a < 64 \<Longrightarrow> (128 + a) mod 64 = a"
  for a :: nat
  using mod_shift [of a 32 6] mod_shift [of a 16 14] mod_shift [of a 8 30] mod_shift [of a 64 2]
  by simp_all

lemma div_4096: "c div 4096 = c div 64 div 64" for c :: nat
  by (simp add: div_mult2_eq [symmetric])

lemma div_262144: "c div 262144 = c div 64 div 64 div 64" for c :: nat
  by (simp add: div_mult2_eq [symmetric])

lemma idle_simps:
  "codePoint idle = 0" "bytesSeen idle = 0" "bytesNeeded idle = 0"
  "lowerBoundary idle = 128" "upperBoundary idle = 191"
  by (simp_all add: idle_def)

lemma lead1: "b < 128 \<Longrightarrow> utf8_handler idle b = ([b], idle)"
  by (simp add: utf8_handler_def utf8_lead_def idle_def mod_offsets)

lemma lead2:
  "2 \<le> a \<Longrightarrow> a < 32 \<Longrightarrow>
   utf8_handler idle (192 + a) = ([], idle\<lparr>bytesNeeded := 1, codePoint := a\<rparr>)"
  by (simp add: utf8_handler_def utf8_lead_def idle_def mod_offsets)

lemma lead3:
  "a < 16 \<Longrightarrow>
   utf8_handler idle (224 + a) =
     ([], idle\<lparr>lowerBoundary := (if a = 0 then 0xA0 else 0x80),
                 upperBoundary := (if a = 13 then 0x9F else 0xBF),
                 bytesNeeded := 2, codePoint := a\<rparr>)"
  by (simp add: utf8_handler_def utf8_lead_def idle_def mod_offsets)

lemma lead4:
  "a < 5 \<Longrightarrow>
   utf8_handler idle (240 + a) =
     ([], idle\<lparr>lowerBoundary := (if a = 0 then 0x90 else 0x80),
                 upperBoundary := (if a = 4 then 0x8F else 0xBF),
                 bytesNeeded := 3, codePoint := a\<rparr>)"
  by (simp add: utf8_handler_def utf8_lead_def idle_def mod_offsets)

lemma continuation:
  "bytesNeeded d \<noteq> 0 \<Longrightarrow> lowerBoundary d \<le> 128 + b \<Longrightarrow> 128 + b \<le> upperBoundary d \<Longrightarrow>
   b < 64 \<Longrightarrow>
   utf8_handler d (128 + b) =
     (if bytesSeen d + 1 \<noteq> bytesNeeded d
      then ([], d\<lparr>lowerBoundary := 0x80, upperBoundary := 0xBF,
                    codePoint := codePoint d * 64 + b, bytesSeen := bytesSeen d + 1\<rparr>)
      else ([codePoint d * 64 + b], idle))"
  by (simp add: utf8_handler_def Let_def mod_offsets)

text \<open>
  The decoder reads the encoding of a scalar value back as that value: one case for
  each length of the encoding, with the digits of the value in base 64.
\<close>

lemma decode_encode_one:
  assumes "scalar c"
  shows "utf8_decode idle (utf8_bytes c @ rest) = c # utf8_decode idle rest"
proof -
  define q1 where "q1 = c div 64"
  define r1 where "r1 = c mod 64"
  define q2 where "q2 = q1 div 64"
  define r2 where "r2 = q1 mod 64"
  define q3 where "q3 = q2 div 64"
  define r3 where "r3 = q2 mod 64"
  have c: "c = q1 * 64 + r1" "r1 < 64"
    by (simp_all add: q1_def r1_def)
  have q1: "q1 = q2 * 64 + r2" "r2 < 64"
    by (simp_all add: q2_def r2_def)
  have q2: "q2 = q3 * 64 + r3" "r3 < 64"
    by (simp_all add: q3_def r3_def)
  from assms have range: "c < 1114112" "c < 55296 \<or> 57343 < c"
    by (auto simp: scalar_def)
  consider "c < 128" | "128 \<le> c" "c < 2048" | "2048 \<le> c" "c < 65536" | "65536 \<le> c"
    by linarith
  then show ?thesis
  proof cases
    case 1
    then show ?thesis by (simp add: utf8_bytes_def lead1)
  next
    case 2
    have ab: "2 \<le> q1" "q1 < 32"
      using 2 c by linarith+
    have bytes: "utf8_bytes c = [192 + q1, 128 + r1]"
      using 2 by (simp add: utf8_bytes_def q1_def r1_def)
    have "q1 * 64 + r1 = c" using c by simp
    then show ?thesis
      using ab c(2) by (simp add: bytes lead2 continuation idle_simps)
  next
    case 3
    have a: "q2 < 16"
      using 3 c q1 by linarith
    have lo: "q2 = 0 \<Longrightarrow> 32 \<le> r2"
      using 3 c q1 by linarith
    have hi: "q2 = 13 \<Longrightarrow> r2 < 32"
      using 3 c q1 range by linarith
    have bytes: "utf8_bytes c = [224 + q2, 128 + r2, 128 + r1]"
      using 3 by (simp add: utf8_bytes_def q1_def r1_def q2_def r2_def div_4096)
    define d1 where
      "d1 = idle\<lparr>lowerBoundary := (if q2 = 0 then 0xA0 else 0x80),
                   upperBoundary := (if q2 = 13 then 0x9F else 0xBF),
                   bytesNeeded := 2, codePoint := q2\<rparr>"
    define d2 where
      "d2 = d1\<lparr>lowerBoundary := 0x80, upperBoundary := 0xBF,
                 codePoint := q2 * 64 + r2, bytesSeen := 1\<rparr>"
    have s1: "utf8_handler idle (224 + q2) = ([], d1)"
      unfolding d1_def using a by (rule lead3)
    have "lowerBoundary d1 \<le> 128 + r2" "128 + r2 \<le> upperBoundary d1"
      using lo hi q1(2) by (auto simp: d1_def idle_simps)
    then have s2: "utf8_handler d1 (128 + r2) = ([], d2)"
      using q1(2) by (simp add: continuation d1_def d2_def idle_simps)
    have s3: "utf8_handler d2 (128 + r1) = ([(q2 * 64 + r2) * 64 + r1], idle)"
      using c(2) by (simp add: continuation d1_def d2_def idle_simps)
    have "(q2 * 64 + r2) * 64 + r1 = c" using c q1 by simp
    then show ?thesis
      by (simp add: bytes s1 s2 s3)
  next
    case 4
    have a: "q3 < 5"
      using 4 c q1 q2 range by linarith
    have lo: "q3 = 0 \<Longrightarrow> 16 \<le> r3"
      using 4 c q1 q2 by linarith
    have hi: "q3 = 4 \<Longrightarrow> r3 < 16"
      using 4 c q1 q2 range by linarith
    have bytes: "utf8_bytes c = [240 + q3, 128 + r3, 128 + r2, 128 + r1]"
      using 4
      by (simp add: utf8_bytes_def q1_def r1_def q2_def r2_def q3_def r3_def div_4096 div_262144)
    define d1 where
      "d1 = idle\<lparr>lowerBoundary := (if q3 = 0 then 0x90 else 0x80),
                   upperBoundary := (if q3 = 4 then 0x8F else 0xBF),
                   bytesNeeded := 3, codePoint := q3\<rparr>"
    define d2 where
      "d2 = d1\<lparr>lowerBoundary := 0x80, upperBoundary := 0xBF,
                 codePoint := q3 * 64 + r3, bytesSeen := 1\<rparr>"
    define d3 where
      "d3 = d2\<lparr>lowerBoundary := 0x80, upperBoundary := 0xBF,
                 codePoint := (q3 * 64 + r3) * 64 + r2, bytesSeen := 2\<rparr>"
    have s1: "utf8_handler idle (240 + q3) = ([], d1)"
      unfolding d1_def using a by (rule lead4)
    have "lowerBoundary d1 \<le> 128 + r3" "128 + r3 \<le> upperBoundary d1"
      using lo hi q2(2) by (auto simp: d1_def idle_simps)
    then have s2: "utf8_handler d1 (128 + r3) = ([], d2)"
      using q2(2) by (simp add: continuation d1_def d2_def idle_simps)
    have s3: "utf8_handler d2 (128 + r2) = ([], d3)"
      using q1(2) by (simp add: continuation d1_def d2_def d3_def idle_simps)
    have s4: "utf8_handler d3 (128 + r1) = ([((q3 * 64 + r3) * 64 + r2) * 64 + r1], idle)"
      using c(2) by (simp add: continuation d1_def d2_def d3_def idle_simps)
    have "((q3 * 64 + r3) * 64 + r2) * 64 + r1 = c" using c q1 q2 by simp
    then show ?thesis
      by (simp add: bytes s1 s2 s3 s4)
  qed
qed

lemma decode_encode:
  "list_all scalar cs \<Longrightarrow> utf8_decode idle (concat (map utf8_bytes cs)) = cs"
  by (induction cs) (simp_all add: decode_encode_one idle_simps)

lemma pair_scalar:
  assumes "highSurrogate u" "lowSurrogate v"
  shows "scalar (0x10000 + (u - 0xD800) * 0x400 + (v - 0xDC00))"
    and "utf16_units (0x10000 + (u - 0xD800) * 0x400 + (v - 0xDC00)) = [u, v]"
    and "0x10000 + (u - 0xD800) * 0x400 + (v - 0xDC00) \<noteq> 0xFEFF"
proof -
  define h where "h = u - 0xD800"
  define l where "l = v - 0xDC00"
  have h: "h < 1024" "u = 55296 + h"
    using assms(1) by (auto simp: h_def highSurrogate_def)
  have l: "l < 1024" "v = 56320 + l"
    using assms(2) by (auto simp: l_def lowSurrogate_def)
  have "h * 1024 + l < 1048576"
    using h(1) l(1) by linarith
  then show "scalar (0x10000 + (u - 0xD800) * 0x400 + (v - 0xDC00))"
    by (simp add: scalar_def h_def [symmetric] l_def [symmetric])
  have "(h * 1024 + l) div 1024 = h" "(h * 1024 + l) mod 1024 = l"
    using l(1) by simp_all
  then show "utf16_units (0x10000 + (u - 0xD800) * 0x400 + (v - 0xDC00)) = [u, v]"
    by (simp add: utf16_units_def h_def [symmetric] l_def [symmetric] h(2) l(2))
  show "0x10000 + (u - 0xD800) * 0x400 + (v - 0xDC00) \<noteq> 0xFEFF"
    by simp
qed

lemma unit_scalar:
  "\<not> highSurrogate u \<Longrightarrow> \<not> lowSurrogate u \<Longrightarrow> u < 65536 \<Longrightarrow>
   scalar u \<and> utf16_units u = [u]"
  by (auto simp: scalar_def highSurrogate_def lowSurrogate_def utf16_units_def)

lemma toScalars_wellFormed:
  "wellFormed us \<Longrightarrow> list_all (\<lambda>u. u < 65536) us \<Longrightarrow>
   list_all scalar (toScalars us) \<and> concat (map utf16_units (toScalars us)) = us"
proof (induction us rule: toScalars.induct)
  case 1
  show ?case by simp
next
  case (2 u)
  then show ?case by (simp add: unit_scalar)
next
  case (3 u v rest)
  show ?case
  proof (cases "highSurrogate u")
    case True
    with 3 show ?thesis by (simp add: pair_scalar)
  next
    case False
    with 3 show ?thesis by (simp add: unit_scalar)
  qed
qed

lemma toScalars_noBOM:
  "wellFormed us \<Longrightarrow> (case us of [] \<Rightarrow> True | u # _ \<Rightarrow> u \<noteq> 0xFEFF) \<Longrightarrow>
   stripBOM (toScalars us) = toScalars us"
proof (cases us rule: toScalars.cases)
  case 1
  then show ?thesis by (simp add: stripBOM_def)
next
  case (2 u)
  assume "case us of [] \<Rightarrow> True | u # _ \<Rightarrow> u \<noteq> 0xFEFF"
  with 2 show ?thesis by (simp add: stripBOM_def)
next
  case (3 u v rest)
  assume "wellFormed us" "case us of [] \<Rightarrow> True | u # _ \<Rightarrow> u \<noteq> 0xFEFF"
  with 3 show ?thesis by (simp add: stripBOM_def pair_scalar(3))
qed

lemma utf8_bytes_small: "c < 0x110000 \<Longrightarrow> list_all (\<lambda>b. b < 256) (utf8_bytes c)"
proof -
  assume c: "c < 0x110000"
  have m: "c mod 64 < 64" "c div 64 mod 64 < 64" "c div 4096 mod 64 < 64" by simp_all
  have "c < 2048 \<Longrightarrow> c div 64 < 32" "c < 65536 \<Longrightarrow> c div 4096 < 16" "c div 262144 < 5"
    using c by (simp_all add: less_mult_imp_div_less)
  with m show ?thesis
    by (auto simp: utf8_bytes_def)
qed

lemma scalar_range: "scalar c \<Longrightarrow> c < 0x110000"
  by (simp add: scalar_def)

lemma encoded_small:
  "list_all scalar cs \<Longrightarrow> list_all (\<lambda>b. b < 256) (concat (map utf8_bytes cs))"
  by (induction cs) (simp_all add: utf8_bytes_small scalar_range)

text \<open>
  A well-formed string that does not begin with U+FEFF survives encoding and decoding.
\<close>

lemma text_roundtrip:
  assumes "wellFormed (map unat str)"
    and "case str of [] \<Rightarrow> True | u # _ \<Rightarrow> u \<noteq> 0xFEFF"
  shows "arrayBufferToString (stringToArrayBuffer str) = str"
proof -
  let ?us = "map unat str"
  have units: "list_all (\<lambda>u. u < 65536) ?us"
    by (induction str) (simp_all add: unit_lt)
  from toScalars_wellFormed [OF assms(1) units]
  have sc: "list_all scalar (toScalars ?us)"
    and back16: "concat (map utf16_units (toScalars ?us)) = ?us"
    by simp_all
  have "case ?us of [] \<Rightarrow> True | u # _ \<Rightarrow> u \<noteq> 0xFEFF"
  proof (cases str)
    case Nil
    then show ?thesis by simp
  next
    case (Cons u rest)
    with assms(2) have "u \<noteq> 0xFEFF" by simp
    then have "unat u \<noteq> unat (0xFEFF :: 16 word)"
      by (simp only: word_unat_eq_iff not_False_eq_True)
    with Cons show ?thesis by simp
  qed
  with assms(1) have bom: "stripBOM (toScalars ?us) = toScalars ?us"
    by (rule toScalars_noBOM)
  have "map unat (stringToArrayBuffer str) = concat (map utf8_bytes (toScalars ?us))"
    unfolding stringToArrayBuffer_def using sc by (intro map_unat_of_nat8 encoded_small)
  then have "arrayBufferToString (stringToArrayBuffer str) = map of_nat ?us"
    using sc by (simp add: arrayBufferToString_def decode_encode bom back16)
  also have "\<dots> = str"
    by (induction str) simp_all
  finally show ?thesis .
qed

subsection \<open>Encryption and decryption\<close>

lemma bufferSlice_split:
  "bufferSlice buffer 0 (Some e) @ bufferSlice buffer e None = buffer"
proof -
  let ?k = "sliceIndex (int (length buffer)) e"
  have "bufferSlice buffer 0 (Some e) = take ?k buffer"
    by (simp add: bufferSlice_def sliceIndex_def)
  moreover have "bufferSlice buffer e None = drop ?k buffer"
    by (simp add: bufferSlice_def)
  ultimately show ?thesis by simp
qed

text \<open>
  With a key in place, and with an AES-GCM that decrypts what it has encrypted,
  \<open>decrypt\<close> of the envelope of \<open>encrypt\<close> returns the message as \<open>TextDecoder\<close>
  reads the bytes of \<open>TextEncoder\<close>: the split into ciphertext and tag and the three
  base64 texts are undone exactly.
\<close>

lemma roundtrip_text:
  assumes key: "encryptionKey e = Some key"
    and enc: "gcmEncrypt W key ivBytes (stringToArrayBuffer message) = Some encrypted"
    and dec: "gcmDecrypt W key ivBytes encrypted = Some (stringToArrayBuffer message)"
  shows "roundtrip W ivBytes message e =
           Inr (arrayBufferToString (stringToArrayBuffer message))"
proof -
  let ?n = "int (length encrypted)"
  let ?ct = "bufferSlice encrypted 0 (Some (?n - 16))"
  let ?tg = "bufferSlice encrypted (?n - 16) None"
  obtain c where c: "arrayBufferToBase64 ?ct = Some c" "base64ToArrayBuffer c = Some ?ct"
    using base64_roundtrip [of ?ct] by blast
  obtain i where i: "arrayBufferToBase64 ivBytes = Some i" "base64ToArrayBuffer i = Some ivBytes"
    using base64_roundtrip [of ivBytes] by blast
  obtain t where t: "arrayBufferToBase64 ?tg = Some t" "base64ToArrayBuffer t = Some ?tg"
    using base64_roundtrip [of ?tg] by blast
  have 1: "encrypt W ivBytes message e = Inr \<lparr>envData = c, envIv = i, envTag = t\<rparr>"
    using key enc c(1) i(1) t(1) by (simp add: encrypt_def Let_def)
  have "?ct @ ?tg = encrypted"
    by (rule bufferSlice_split)
  then have "decrypt W c i t e = Inr (arrayBufferToString (stringToArrayBuffer message))"
    using key dec c(2) i(2) t(2) by (simp add: decrypt_def)
  with 1 show ?thesis by (simp add: roundtrip_def)
qed

lemma toy_correct:
  "gcmEncrypt toySubtle key ivBytes plain =
     Some (map (\<lambda>b. b + 1) plain @ toyTag key ivBytes plain)"
  "gcmDecrypt toySubtle key ivBytes (map (\<lambda>b. b + 1) plain @ toyTag key ivBytes plain) =
     Some plain"
  by (simp_all add: toySubtle_def toyTag_def Let_def o_def)

lemma js_AQID: "js ''AQID'' = [65, 81, 73, 68]"
  by (simp add: js_def)

lemma AQID_bytes: "base64ToArrayBuffer [65, 81, 73, 68] = Some [1, 2, 3]"
  by (simp add: base64ToArrayBuffer_def atob_def asciiWhitespace_def stripPadding_def
      b64val_def Let_def)

lemma toyStarted_eval:
  "toyStarted = \<lparr>keyPair = Some ([9], [7]), sharedSecret = None, encryptionKey = None\<rparr>"
  by (simp add: toyStarted_def initializeKeyExchange_def newE2EE_def toySubtle_def Let_def
      split: option.splits)

lemma toyReady_eval:
  "computeSharedSecret toySubtle (js ''AQID'') toyStarted =
     (\<lparr>keyPair = Some ([9], [7]), sharedSecret = Some [9, 1, 2, 3],
       encryptionKey = Some [9, 1, 2, 3]\<rparr>, True)"
  by (simp add: computeSharedSecret_def js_AQID AQID_bytes toyStarted_eval toySubtle_def)

lemma toyReady_key: "encryptionKey toyReady = Some [9, 1, 2, 3]"
  by (simp add: toyReady_def toyReady_eval)

lemma bom_bytes: "stringToArrayBuffer [0xFEFF, 0x48] = [239, 187, 191, 72]"
  by (simp add: stringToArrayBuffer_def highSurrogate_def lowSurrogate_def utf8_bytes_def)

lemma bom_text: "arrayBufferToString [239, 187, 191, 72] = [0x48]"
  by (simp add: arrayBufferToString_def utf8_handler_def utf8_lead_def idle_def Let_def
      stripBOM_def utf16_units_def)

lemma lone_bytes: "stringToArrayBuffer [0xD83D] = [239, 191, 189]"
  by (simp add: stringToArrayBuffer_def highSurrogate_def lowSurrogate_def utf8_bytes_def)

lemma lone_text: "arrayBufferToString [239, 191, 189] = [0xFFFD]"
  by (simp add: arrayBufferToString_def utf8_handler_def utf8_lead_def idle_def Let_def
      stripBOM_def utf16_units_def)

text \<open>
  C1, as stated, fails: the plaintext that \<open>encrypt\<close> takes is a string, and not every
  string comes back. On an instance whose key is established, the message U+FEFF \<open>H\<close>
  comes back as \<open>H\<close> (the decoder drops a leading byte order mark), and the message of the
  lone surrogate U+D83D comes back as U+FFFD (the encoder replaces it). Both losses are
  in the text conversion, whatever the cipher.
\<close>

theorem roundtrip_counterexample:
  "isReady toyReady \<and>
   roundtrip toySubtle iv0 [0xFEFF, 0x48] toyReady = Inr [0x48] \<and>
   roundtrip toySubtle iv0 [0xD83D] toyReady = Inr [0xFFFD]"
  using roundtrip_text [OF toyReady_key toy_correct, of iv0 "[0xFEFF, 0x48]"]
        roundtrip_text [OF toyReady_key toy_correct, of iv0 "[0xD83D]"]
  by (simp add: isReady_def toyReady_key bom_bytes bom_text lone_bytes lone_text)

text \<open>
  C1, amended. For every message that is a well-formed string and does not begin with
  U+FEFF: if the key is established and the platform's AES-GCM encrypts the message
  bytes under the key and the nonce, and decrypts that output back to them, then
  \<open>decrypt\<close> applied to the envelope of \<open>encrypt\<close> returns exactly the message.
\<close>

theorem encrypt_decrypt_roundtrip:
  assumes "encryptionKey e = Some key"
    and "gcmEncrypt W key ivBytes (stringToArrayBuffer message) = Some encrypted"
    and "gcmDecrypt W key ivBytes encrypted = Some (stringToArrayBuffer message)"
    and "wellFormed (map unat message)"
    and "case message of [] \<Rightarrow> True | u # _ \<Rightarrow> u \<noteq> 0xFEFF"
  shows "roundtrip W ivBytes message e = Inr message"
  using roundtrip_text [OF assms(1-3)] text_roundtrip [OF assms(4,5)] by simp

theorem encrypt_decrypt_roundtrip_witness:
  "encryptionKey toyReady = Some [9, 1, 2, 3] \<and>
   roundtrip toySubtle iv0 [72, 105] toyReady = Inr [72, 105]"
proof -
  have wf: "wellFormed (map unat [72, 105 :: 16 word])"
    by (simp add: highSurrogate_def lowSurrogate_def)
  have bom: "case [72, 105 :: 16 word] of [] \<Rightarrow> True | u # _ \<Rightarrow> u \<noteq> 0xFEFF"
    by simp
  from encrypt_decrypt_roundtrip [OF toyReady_key toy_correct wf bom] toyReady_key
  show ?thesis by simp
qed

subsection \<open>Readiness\<close>

lemma not_derived_keeps_None:
  "encryptionKey e = None \<Longrightarrow> \<not> derives W c e \<Longrightarrow> encryptionKey (after W c e) = None"
  by (cases c)
     (auto simp: initializeKeyExchange_def computeSharedSecret_def reset_def Let_def
           split: option.splits prod.splits)

lemma never_derived_None:
  "encryptionKey e = None \<Longrightarrow> \<not> everDerived W cs e \<Longrightarrow>
   encryptionKey (afterAll W cs e) = None"
proof (induction cs arbitrary: e)
  case Nil
  then show ?case by simp
next
  case (Cons c cs)
  from Cons.prems have "\<not> derives W c e" "\<not> everDerived W cs (after W c e)"
    by simp_all
  moreover from Cons.prems(1) \<open>\<not> derives W c e\<close> have "encryptionKey (after W c e) = None"
    by (rule not_derived_keeps_None)
  ultimately show ?case using Cons.IH by simp
qed

text \<open>
  C8. On an instance made by \<open>new E2EE()\<close>, after any sequence of calls none of which
  is a \<open>computeSharedSecret\<close> that returned \<open>true\<close>, \<open>encrypt\<close> throws the error
  \<open>Encryption key not established\<close> for every nonce and message, and \<open>decrypt\<close> throws
  it for every envelope: neither returns a result.
\<close>

theorem not_ready:
  assumes "\<not> everDerived W cs newE2EE"
  shows "encrypt W ivBytes message (afterAll W cs newE2EE) = Inl NotEstablished \<and>
         decrypt W encryptedData ivBase64 tagBase64 (afterAll W cs newE2EE) = Inl NotEstablished"
proof -
  have "encryptionKey (newE2EE :: ('a, 'b, 'c) e2ee) = None"
    by (simp add: newE2EE_def)
  then have "encryptionKey (afterAll W cs newE2EE) = None"
    using assms by (rule never_derived_None)
  then show ?thesis by (simp add: encrypt_def decrypt_def)
qed

text \<open>
  A sequence with two failing key exchanges: one before any key pair exists, one with a
  text that is not base64.
\<close>

theorem not_ready_witness:
  "\<not> everDerived toySubtle [ComputeSharedSecret (js ''AQID''), Reset,
       InitializeKeyExchange (Some ([9], [7])), ComputeSharedSecret [33]] newE2EE \<and>
   encrypt toySubtle iv0 [72, 105]
     (afterAll toySubtle [ComputeSharedSecret (js ''AQID''), Reset,
        InitializeKeyExchange (Some ([9], [7])), ComputeSharedSecret [33]] newE2EE) =
     Inl NotEstablished \<and>
   decrypt toySubtle [83, 87, 111, 61] [65, 81, 73, 68] [65, 81, 73, 68]
     (afterAll toySubtle [ComputeSharedSecret (js ''AQID''), Reset,
        InitializeKeyExchange (Some ([9], [7])), ComputeSharedSecret [33]] newE2EE) =
     Inl NotEstablished"
proof -
  let ?cs = "[ComputeSharedSecret (js ''AQID''), Reset,
              InitializeKeyExchange (Some ([9], [7])), ComputeSharedSecret [33]]"
  have bad: "base64ToArrayBuffer [33] = None"
    by (simp add: base64ToArrayBuffer_def atob_def asciiWhitespace_def stripPadding_def)
  have n: "\<not> everDerived toySubtle ?cs newE2EE"
    by (simp add: computeSharedSecret_def js_AQID AQID_bytes bad newE2EE_def toySubtle_def
        reset_def initializeKeyExchange_def Let_def split: option.splits)
  from not_ready [OF n] n show ?thesis by simp
qed

subsection \<open>Key derivation\<close>

text \<open>
  C9. A second \<open>computeSharedSecret\<close> with the same peer key returns what the first
  returned and leaves the instance as the first left it, so the derived key is the same
  both times; the key pair is not touched; and the key of a successful call is PBKDF2
  of the ECDH bits of the own private key and the peer's key, with the fixed salt and
  100000 iterations: it depends on nothing else, and the method draws no random value.
\<close>

theorem computeSharedSecret_idempotent:
  "computeSharedSecret W peer (fst (computeSharedSecret W peer e)) = computeSharedSecret W peer e
 \<and> keyPair (fst (computeSharedSecret W peer e)) = keyPair e
 \<and> (\<forall>privateKey publicKey raw peerKey bits.
       keyPair e = Some (privateKey, publicKey) \<and> base64ToArrayBuffer peer = Some raw \<and>
       importRaw W raw = Some peerKey \<and> ecdhBits W privateKey peerKey = Some bits \<and>
       snd (computeSharedSecret W peer e) \<longrightarrow>
       encryptionKey (fst (computeSharedSecret W peer e)) = pbkdf2Key W bits salt 100000)"
  by (auto simp: computeSharedSecret_def Let_def split: option.splits prod.splits)

theorem computeSharedSecret_idempotent_witness:
  "computeSharedSecret toySubtle (js ''AQID'') toyReady = (toyReady, True) \<and>
   encryptionKey toyReady = Some [9, 1, 2, 3]"
proof -
  note T = computeSharedSecret_idempotent [of toySubtle "js ''AQID''" toyStarted]
  have ok: "snd (computeSharedSecret toySubtle (js ''AQID'') toyStarted)"
    by (simp only: toyReady_eval snd_conv)
  have again: "computeSharedSecret toySubtle (js ''AQID'') toyReady = (toyReady, True)"
    using T [THEN conjunct1] ok
    by (simp only: toyReady_def) (metis prod.collapse)
  have kp: "keyPair toyStarted = Some ([9], [7])"
    by (simp add: toyStarted_eval)
  have b64: "base64ToArrayBuffer (js ''AQID'') = Some [1, 2, 3]"
    by (simp add: js_AQID AQID_bytes)
  have prim: "importRaw toySubtle [1, 2, 3] = Some [1, 2, 3]"
    "ecdhBits toySubtle [9] [1, 2, 3] = Some [9, 1, 2, 3]"
    "pbkdf2Key toySubtle [9, 1, 2, 3] salt 100000 = Some [9, 1, 2, 3]"
    by (simp_all add: toySubtle_def)
  from kp b64 prim(1,2) ok
  have "encryptionKey (fst (computeSharedSecret toySubtle (js ''AQID'') toyStarted)) =
          pbkdf2Key toySubtle [9, 1, 2, 3] salt 100000"
    using T [THEN conjunct2, THEN conjunct2] by blast
  then have "encryptionKey toyReady = Some [9, 1, 2, 3]"
    by (simp only: toyReady_def prim(3))
  with again show ?thesis by simp
qed


end
